theory Spec2Isabelle
  imports Complex_Main "HOL-Library.Sublist"
begin

section \<open>Python strings and integers used by the resolver\<close>

text \<open>
  Python strings are sequences of code points. They are modelled as \<^typ>\<open>string\<close>,
  one \<^typ>\<open>char\<close> per code point, which covers the code points 0 to 255. The
  character classes below are the ones \<^verbatim>\<open>str.isspace\<close>, \<^verbatim>\<open>str.isdigit\<close> and
  \<^verbatim>\<open>str.lower\<close> have on that range.
\<close>

definition py_isspace :: "char \<Rightarrow> bool" where
  "py_isspace c = (let n = (of_char c :: nat) in
     (9 \<le> n \<and> n \<le> 13) \<or> (28 \<le> n \<and> n \<le> 32) \<or> n = 133 \<or> n = 160)"

definition strip :: "string \<Rightarrow> string" where
  "strip s = rev (dropWhile py_isspace (rev (dropWhile py_isspace s)))"

definition ascii_digit :: "char \<Rightarrow> bool" where
  "ascii_digit c = (let n = (of_char c :: nat) in 48 \<le> n \<and> n \<le> 57)"

text \<open>\<^verbatim>\<open>str.isdigit\<close> also accepts the superscript digits (code points 178, 179, 185),
  which \<^verbatim>\<open>int\<close> rejects.\<close>

definition py_isdigit_char :: "char \<Rightarrow> bool" where
  "py_isdigit_char c = (let n = (of_char c :: nat) in
     (48 \<le> n \<and> n \<le> 57) \<or> n = 178 \<or> n = 179 \<or> n = 185)"

definition isdigit :: "string \<Rightarrow> bool" where
  "isdigit s = (s \<noteq> [] \<and> list_all py_isdigit_char s)"

definition lower_char :: "char \<Rightarrow> char" where
  "lower_char c = (let n = (of_char c :: nat) in
     if (65 \<le> n \<and> n \<le> 90) \<or> (192 \<le> n \<and> n \<le> 222 \<and> n \<noteq> 215)
     then char_of (n + 32) else c)"

definition lower :: "string \<Rightarrow> string" where
  "lower s = map lower_char s"

text \<open>\<^verbatim>\<open>s.split(c)\<close> for a one-character separator: never empty, \<^verbatim>\<open>"".split(c) == [""]\<close>.\<close>

fun split_on :: "char \<Rightarrow> string \<Rightarrow> string list" where
  "split_on c [] = [[]]"
| "split_on c (x # xs) =
     (if x = c then [] # split_on c xs
      else (case split_on c xs of
              [] \<Rightarrow> [[x]]
            | p # ps \<Rightarrow> (x # p) # ps))"

text \<open>\<^verbatim>\<open>c.join(parts)\<close>.\<close>

fun join :: "char \<Rightarrow> string list \<Rightarrow> string" where
  "join c [] = []"
| "join c [p] = p"
| "join c (p # q # ps) = p @ c # join c (q # ps)"

text \<open>\<^verbatim>\<open>str(n)\<close> for an integer: decimal digits, a minus sign for a negative number.\<close>

fun str_nat :: "nat \<Rightarrow> string" where
  "str_nat n = (if n < 10 then [char_of (48 + n)]
                else str_nat (n div 10) @ [char_of (48 + n mod 10)])"

declare str_nat.simps [simp del]

definition str_int :: "int \<Rightarrow> string" where
  "str_int i = (if i < 0 then CHR ''-'' # str_nat (nat (- i)) else str_nat (nat i))"

text \<open>
  \<^verbatim>\<open>int(s)\<close> on a string for which \<^verbatim>\<open>s.isdigit()\<close> holds: the decimal value when
  every character is an ASCII digit, ValueError (\<open>None\<close>) otherwise. (CPython's limit on
  the number of digits of a decimal literal is not modelled.)
\<close>

definition digits_value :: "string \<Rightarrow> nat" where
  "digits_value s = foldl (\<lambda>a c. 10 * a + (of_char c - 48)) 0 s"

definition int_of_str :: "string \<Rightarrow> int option" where
  "int_of_str s = (if s \<noteq> [] \<and> list_all ascii_digit s then Some (int (digits_value s)) else None)"

text \<open>\<^verbatim>\<open>x in s\<close> and \<^verbatim>\<open>s.startswith(x)\<close> are \<^const>\<open>sublist\<close> and \<^const>\<open>prefix\<close>.\<close>

section \<open>utils.py: the time window and slug helpers\<close>

text \<open>
  \<^verbatim>\<open>datetime.now(timezone.utc)\<close>: an instant of the system clock in UTC. The date is
  kept as the number of days since 1970-01-01, the rest as the fields the code reads and
  replaces.
\<close>

record datetime =
  days :: nat
  hour :: nat
  minute :: nat
  second :: nat
  microsecond :: nat

definition valid_datetime :: "datetime \<Rightarrow> bool" where
  "valid_datetime dt =
     (hour dt < 24 \<and> minute dt < 60 \<and> second dt < 60 \<and> microsecond dt < 1000000)"

text \<open>Microseconds since the epoch; \<^verbatim>\<open>dt.timestamp()\<close> is this number divided by \<open>10^6\<close>.\<close>

definition timestamp_us :: "datetime \<Rightarrow> int" where
  "timestamp_us dt =
     (((int (days dt) * 24 + int (hour dt)) * 60 + int (minute dt)) * 60 + int (second dt)) * 1000000
       + int (microsecond dt)"

text \<open>\<^verbatim>\<open>int(x)\<close> on a number of seconds given in microseconds: truncation towards zero.\<close>

definition int_of_seconds :: "int \<Rightarrow> int" where
  "int_of_seconds us = (if 0 \<le> us then us div 1000000 else - ((- us) div 1000000))"

definition get_current_15min_timestamp :: "datetime \<Rightarrow> int" where
  "get_current_15min_timestamp now =
     (let minutes = (minute now div 15) * 15;
          rounded = now\<lparr>minute := minutes, second := 0, microsecond := 0\<rparr>
      in int_of_seconds (timestamp_us rounded))"

definition get_next_15min_timestamp :: "datetime \<Rightarrow> int" where
  "get_next_15min_timestamp now =
     (let current_15min = get_current_15min_timestamp now
      in current_15min + 900)"

text \<open>How far an instant is into its 15-minute interval, in microseconds (used to state
  the results below; the code does not compute it).\<close>

definition window_offset_us :: "datetime \<Rightarrow> int" where
  "window_offset_us now =
     (int (minute now mod 15) * 60 + int (second now)) * 1000000 + int (microsecond now)"

text \<open>\<^verbatim>\<open>datetime.fromtimestamp(ts, timezone.utc)\<close> for a whole, non-negative timestamp.\<close>

definition fromtimestamp :: "int \<Rightarrow> datetime" where
  "fromtimestamp ts =
     \<lparr>days = nat (ts div 86400), hour = nat ((ts mod 86400) div 3600),
      minute = nat ((ts mod 3600) div 60), second = nat (ts mod 60), microsecond = 0\<rparr>"

text \<open>
  \<^verbatim>\<open>get_seconds_until_next_15min\<close> reads the clock itself (\<open>now\<close>) and once more inside
  \<^verbatim>\<open>get_current_15min_timestamp\<close> (\<open>now'\<close>).
\<close>

definition get_seconds_until_next_15min :: "datetime \<Rightarrow> datetime \<Rightarrow> int" where
  "get_seconds_until_next_15min now now' =
     (let current_timestamp = get_current_15min_timestamp now';
          next_timestamp = current_timestamp + 900;
          next_dt = fromtimestamp next_timestamp;
          delta = timestamp_us next_dt - timestamp_us now
      in int_of_seconds delta)"

definition extract_timestamp_from_slug :: "string \<Rightarrow> int option" where
  "extract_timestamp_from_slug slug =
     (let parts = split_on CHR ''-'' slug in
      if parts \<noteq> [] then
        (let timestamp_str = last parts in
         if isdigit timestamp_str then int_of_str timestamp_str else None)
      else None)"

definition update_slug_with_current_timestamp :: "datetime \<Rightarrow> string \<Rightarrow> string" where
  "update_slug_with_current_timestamp now base_slug =
     (let parts = split_on CHR ''-'' base_slug;
          base_parts = (if length parts > 1 \<and> isdigit (last parts) then butlast parts else parts);
          current_timestamp = get_current_15min_timestamp now
      in join CHR ''-'' base_parts @ ''-'' @ str_int current_timestamp)"

definition is_15min_interval_market :: "string \<Rightarrow> bool" where
  "is_15min_interval_market condition_id_or_slug =
     (let slug_lower = lower condition_id_or_slug in
      sublist ''-15m-'' slug_lower \<or>
      prefix ''btc-updown-15m'' slug_lower \<or>
      prefix ''eth-updown-15m'' slug_lower)"


section \<open>JSON values as Python sees them\<close>

text \<open>
  The values \<^verbatim>\<open>response.json()\<close> and \<^verbatim>\<open>json.loads\<close> produce. A dict is an association
  list read with \<^const>\<open>map_of\<close>. A Python float is identified with the number it denotes;
  Python's \<^verbatim>\<open>None\<close> is \<open>JNull\<close>.
\<close>

datatype json =
    JNull
  | JBool bool
  | JInt int
  | JFloat real
  | JStr string
  | JArr "json list"
  | JObj "(string \<times> json) list"

type_synonym dict = "(string \<times> json) list"

datatype py_error = TypeError | ValueError | KeyError | AttributeError

text \<open>
  Builtins whose results on strings are not computed here: \<^verbatim>\<open>json.loads\<close> (\<open>None\<close> when it
  raises), \<^verbatim>\<open>float\<close> on a string (\<open>None\<close> when it raises ValueError) and \<^verbatim>\<open>str\<close> on a
  float, list or dict.
\<close>

record py_builtins =
  json_loads :: "string \<Rightarrow> json option"
  float_of_str :: "string \<Rightarrow> real option"
  repr :: "json \<Rightarrow> string"

text \<open>Truth value of an object in \<^verbatim>\<open>if x:\<close>, \<^verbatim>\<open>x or y\<close>, \<^verbatim>\<open>x and y\<close>, \<^verbatim>\<open>not x\<close>.\<close>

fun truthy :: "json \<Rightarrow> bool" where
  "truthy JNull = False"
| "truthy (JBool b) = b"
| "truthy (JInt i) = (i \<noteq> 0)"
| "truthy (JFloat r) = (r \<noteq> 0)"
| "truthy (JStr s) = (s \<noteq> [])"
| "truthy (JArr xs) = (xs \<noteq> [])"
| "truthy (JObj d) = (d \<noteq> [])"

definition py_or :: "json \<Rightarrow> json \<Rightarrow> json" where
  "py_or a b = (if truthy a then a else b)"

text \<open>\<^verbatim>\<open>d.get(k, default)\<close>.\<close>

definition dict_get :: "dict \<Rightarrow> string \<Rightarrow> json \<Rightarrow> json" where
  "dict_get d k dflt = (case map_of d k of None \<Rightarrow> dflt | Some v \<Rightarrow> v)"

text \<open>\<^verbatim>\<open>x[:n]\<close> works on strings and lists and raises on every other JSON value.\<close>

fun sliceable :: "json \<Rightarrow> bool" where
  "sliceable (JStr s) = True"
| "sliceable (JArr xs) = True"
| "sliceable v = False"

fun py_len :: "json \<Rightarrow> py_error + nat" where
  "py_len (JStr s) = Inr (length s)"
| "py_len (JArr xs) = Inr (length xs)"
| "py_len (JObj d) = Inr (length (remdups (map fst d)))"
| "py_len v = Inl TypeError"

text \<open>\<^verbatim>\<open>x[i]\<close> for \<open>0 \<le> i < len(x)\<close>; the keys of a JSON object are strings, so an
  integer index is never one of them.\<close>

fun py_index :: "json \<Rightarrow> nat \<Rightarrow> py_error + json" where
  "py_index (JStr s) i = Inr (JStr [s ! i])"
| "py_index (JArr xs) i = Inr (xs ! i)"
| "py_index (JObj d) i = Inl KeyError"
| "py_index v i = Inl TypeError"

text \<open>\<^verbatim>\<open>for x in v\<close>: the elements of a list, the characters of a string, the keys of a dict.\<close>

fun py_iter :: "json \<Rightarrow> py_error + json list" where
  "py_iter (JArr xs) = Inr xs"
| "py_iter (JStr s) = Inr (map (\<lambda>c. JStr [c]) s)"
| "py_iter (JObj d) = Inr (map JStr (remdups (map fst d)))"
| "py_iter v = Inl TypeError"

text \<open>\<^verbatim>\<open>float(x)\<close>. Floats are the numbers they denote, so the OverflowError of \<^verbatim>\<open>float\<close> on
  an integer beyond the double range, rounding, NaN and the infinities are not modelled.\<close>

fun py_float :: "py_builtins \<Rightarrow> json \<Rightarrow> py_error + real" where
  "py_float py (JInt i) = Inr (of_int i)"
| "py_float py (JFloat r) = Inr r"
| "py_float py (JBool b) = Inr (if b then 1 else 0)"
| "py_float py (JStr s) = (case float_of_str py s of None \<Rightarrow> Inl ValueError | Some r \<Rightarrow> Inr r)"
| "py_float py v = Inl TypeError"

fun py_str :: "py_builtins \<Rightarrow> json \<Rightarrow> string" where
  "py_str py (JStr s) = s"
| "py_str py (JInt i) = str_int i"
| "py_str py (JBool b) = (if b then ''True'' else ''False'')"
| "py_str py JNull = ''None''"
| "py_str py v = repr py v"

text \<open>A market counts as active when \<^verbatim>\<open>market.get("active", True) and not
  market.get("closed", False)\<close> is true.\<close>

definition is_active :: "dict \<Rightarrow> bool" where
  "is_active market =
     (truthy (dict_get market ''active'' (JBool True)) \<and>
      \<not> truthy (dict_get market ''closed'' (JBool False)))"

section \<open>clob\_client.py: normalisation\<close>

definition mk_token :: "json \<Rightarrow> json \<Rightarrow> real \<Rightarrow> json \<Rightarrow> json" where
  "mk_token token_id outcome price winner =
     JObj [(''token_id'', token_id), (''outcome'', outcome),
           (''price'', JFloat price), (''winner'', winner)]"

text \<open>The token ids of \<^verbatim>\<open>clobTokenIds\<close>.\<close>

fun token_ids_of :: "py_builtins \<Rightarrow> json \<Rightarrow> string list" where
  "token_ids_of py (JStr s) =
     filter (\<lambda>t. t \<noteq> []) (map strip (split_on CHR '','' s))"
| "token_ids_of py (JArr xs) = map (\<lambda>tid. strip (py_str py tid)) (filter truthy xs)"
| "token_ids_of py v = []"

text \<open>One of the two blocks that read \<^verbatim>\<open>outcomes\<close> and \<^verbatim>\<open>shortOutcomes\<close>: the new value of
  \<^verbatim>\<open>outcome_list\<close>, which stays as it was for a field that is neither a string nor a list.\<close>

fun parse_outcomes :: "py_builtins \<Rightarrow> json \<Rightarrow> json \<Rightarrow> json" where
  "parse_outcomes py outcome_list (JStr s) =
     (case json_loads py s of
        Some v \<Rightarrow> v
      | None \<Rightarrow> JArr (map (\<lambda>outcome. JStr (strip outcome)) (split_on CHR '','' s)))"
| "parse_outcomes py outcome_list (JArr xs) = JArr xs"
| "parse_outcomes py outcome_list v = outcome_list"

definition outcome_list_of :: "py_builtins \<Rightarrow> dict \<Rightarrow> json" where
  "outcome_list_of py market =
     (let outcomes = dict_get market ''outcomes'' (JStr []);
          short_outcomes = dict_get market ''shortOutcomes'' (JStr []);
          outcome_list = JArr [];
          outcome_list = (if truthy outcomes then parse_outcomes py outcome_list outcomes
                          else outcome_list);
          outcome_list = (if \<not> truthy outcome_list \<and> truthy short_outcomes
                          then parse_outcomes py outcome_list short_outcomes else outcome_list)
      in if \<not> truthy outcome_list then JArr [JStr ''Yes'', JStr ''No''] else outcome_list)"

text \<open>\<^verbatim>\<open>outcome_list[i] if i < len(outcome_list) else f"Outcome {i+1}"\<close>.\<close>

definition outcome_at :: "json \<Rightarrow> nat \<Rightarrow> py_error + json" where
  "outcome_at outcome_list i =
     (case py_len outcome_list of
        Inl e \<Rightarrow> Inl e
      | Inr n \<Rightarrow> if i < n then py_index outcome_list i
                 else Inr (JStr (''Outcome '' @ str_nat (i + 1))))"

definition float_or_default :: "py_builtins \<Rightarrow> json \<Rightarrow> real" where
  "float_or_default py v = (case py_float py v of Inl e \<Rightarrow> 0.5 | Inr r \<Rightarrow> r)"

text \<open>The price of token \<open>i\<close> from \<^verbatim>\<open>outcomePrices\<close>; every exception of this block is
  caught and leaves the default.\<close>

definition token_price :: "py_builtins \<Rightarrow> dict \<Rightarrow> nat \<Rightarrow> json \<Rightarrow> real" where
  "token_price py market i outcome =
     (let outcome_prices = dict_get market ''outcomePrices'' (JStr []) in
      if truthy outcome_prices then
        (case (case outcome_prices of JStr s \<Rightarrow> json_loads py s | v \<Rightarrow> Some v) of
           None \<Rightarrow> 0.5
         | Some (JArr prices) \<Rightarrow>
             if i < length prices then float_or_default py (prices ! i) else 0.5
         | Some (JObj prices) \<Rightarrow>
             (case outcome of
                JStr label \<Rightarrow>
                  (case map_of prices label of
                     Some v \<Rightarrow> float_or_default py v
                   | None \<Rightarrow> 0.5)
              | _ \<Rightarrow> 0.5)
         | Some _ \<Rightarrow> 0.5)
      else 0.5)"

text \<open>The loop over \<^verbatim>\<open>enumerate(token_ids)\<close>.\<close>

fun tokens_from_ids :: "py_builtins \<Rightarrow> dict \<Rightarrow> json \<Rightarrow> nat \<Rightarrow> string list \<Rightarrow> py_error + json list" where
  "tokens_from_ids py market outcome_list i [] = Inr []"
| "tokens_from_ids py market outcome_list i (token_id # rest) =
     (case outcome_at outcome_list i of
        Inl e \<Rightarrow> Inl e
      | Inr outcome \<Rightarrow>
          (case tokens_from_ids py market outcome_list (Suc i) rest of
             Inl e \<Rightarrow> Inl e
           | Inr tokens \<Rightarrow>
               Inr (mk_token (JStr token_id) outcome (token_price py market i outcome) (JBool False)
                    # tokens)))"

text \<open>The loop over \<^verbatim>\<open>market.get("tokens", [])\<close>; \<open>tokens\<close> is the list built so far.\<close>

fun tokens_from_array :: "py_builtins \<Rightarrow> json list \<Rightarrow> json list \<Rightarrow> py_error + json list" where
  "tokens_from_array py tokens [] = Inr tokens"
| "tokens_from_array py tokens (JObj token # rest) =
     (case py_float py (dict_get token ''price'' (JFloat 0.5)) of
        Inl e \<Rightarrow> Inl e
      | Inr price \<Rightarrow>
          tokens_from_array py
            (tokens @ [mk_token (dict_get token ''token_id'' (JStr []))
                                (dict_get token ''outcome'' (JStr []))
                                price
                                (dict_get token ''winner'' (JBool False))]) rest)"
| "tokens_from_array py tokens (JStr token # rest) =
     tokens_from_array py
       (tokens @ [mk_token (JStr token) (JStr (''Outcome '' @ str_nat (length tokens + 1)))
                           0.5 (JBool False)]) rest"
| "tokens_from_array py tokens (v # rest) = tokens_from_array py tokens rest"

definition extract_tokens :: "py_builtins \<Rightarrow> dict \<Rightarrow> py_error + json list" where
  "extract_tokens py market =
     (let clob_token_ids = dict_get market ''clobTokenIds'' (JStr []) in
      if truthy clob_token_ids then
        tokens_from_ids py market (outcome_list_of py market) 0 (token_ids_of py clob_token_ids)
      else if truthy (dict_get market ''tokens'' JNull) then
        (case py_iter (dict_get market ''tokens'' (JArr [])) of
           Inl e \<Rightarrow> Inl e
         | Inr ts \<Rightarrow> tokens_from_array py [] ts)
      else Inr [])"

definition format_market :: "py_builtins \<Rightarrow> dict \<Rightarrow> py_error + dict" where
  "format_market py market =
     (let condition_id = dict_get market ''condition_id'' (JStr []) in
      case extract_tokens py market of
        Inl e \<Rightarrow> Inl e
      | Inr tokens \<Rightarrow>
          if tokens = [] \<and> truthy condition_id \<and> \<not> sliceable condition_id then Inl TypeError
          else Inr
            [(''condition_id'', condition_id),
             (''question'', dict_get market ''question'' (JStr ''Unknown Market'')),
             (''description'', dict_get market ''description'' (JStr [])),
             (''tokens'', JArr tokens),
             (''active'', dict_get market ''active'' (JBool True)),
             (''closed'', dict_get market ''closed'' (JBool False)),
             (''end_date'', py_or (dict_get market ''end_date_iso'' (JStr []))
                                  (dict_get market ''endDate'' (JStr []))),
             (''slug'', py_or (dict_get market ''slug'' JNull)
                              (dict_get market ''eventSlug'' (JStr []))),
             (''eventSlug'', py_or (dict_get market ''eventSlug'' JNull)
                                   (dict_get market ''slug'' (JStr [])))])"


text \<open>\<^verbatim>\<open>d[k] = v\<close> on a dict, used to state how a record changes.\<close>

fun dict_set :: "string \<Rightarrow> json \<Rightarrow> dict \<Rightarrow> dict" where
  "dict_set k v [] = [(k, v)]"
| "dict_set k v ((k', v') # d) = (if k = k' then (k, v) # d else (k', v') # dict_set k v d)"

text \<open>A token as the normaliser writes it.\<close>

definition canonical_token :: "json \<Rightarrow> bool" where
  "canonical_token t = (\<exists>token_id outcome price winner. t = mk_token token_id outcome price winner)"

section \<open>clob\_client.py: the listing service and the resolution cascade\<close>

text \<open>
  The three requests the resolver sends to the listing service, and what comes back:
  no response at all (\<^verbatim>\<open>requests.get\<close> raises), or a status code with the value of
  \<^verbatim>\<open>response.json()\<close> (\<open>None\<close> when the body is not JSON).
\<close>

datatype request =
    GetMarketBySlug string
  | GetMarkets nat
  | GetMarketsByConditionIds string

datatype response = NoResponse | Response nat "json option"

text \<open>
  The environment of a call: the service answers a request knowing the requests sent
  before it, and the clock is read after some requests have been sent. The state the
  resolver threads through its calls is that history of requests.
\<close>

record env =
  server :: "request list \<Rightarrow> request \<Rightarrow> response"
  clock :: "request list \<Rightarrow> datetime"

text \<open>\<^verbatim>\<open>if market:\<close> on an \<^verbatim>\<open>Optional[Dict]\<close>: neither \<^verbatim>\<open>None\<close> nor the empty dict.\<close>

fun found_active :: "dict option \<Rightarrow> bool" where
  "found_active None = False"
| "found_active (Some market) = (market \<noteq> [] \<and> is_active market)"

definition fetch_market_by_slug :: "env \<Rightarrow> string \<Rightarrow> request list \<Rightarrow> dict option \<times> request list" where
  "fetch_market_by_slug e slug hist =
     (let slug_clean = strip slug;
          req = GetMarketBySlug slug_clean;
          hist' = hist @ [req]
      in case server e hist req of
           NoResponse \<Rightarrow> (None, hist')
         | Response status_code body \<Rightarrow>
             if status_code = 404 then (None, hist')
             else if 400 \<le> status_code \<and> status_code < 600 then (None, hist')
             else (case body of
                     Some (JObj market) \<Rightarrow>
                       if sliceable (dict_get market ''question'' (JStr ''Unknown''))
                       then (Some market, hist') else (None, hist')
                   | _ \<Rightarrow> (None, hist')))"

definition base_pattern_of :: "string \<Rightarrow> string" where
  "base_pattern_of slug_pattern =
     (if CHR ''-'' \<in> set slug_pattern \<and> isdigit (last (split_on CHR ''-'' slug_pattern))
      then join CHR ''-'' (butlast (split_on CHR ''-'' slug_pattern))
      else slug_pattern)"

text \<open>The loop \<^verbatim>\<open>for offset in [-900, -1800, 0, 900]\<close>.\<close>

fun probe_offsets :: "env \<Rightarrow> string \<Rightarrow> int \<Rightarrow> int list \<Rightarrow> request list \<Rightarrow> dict option \<times> request list" where
  "probe_offsets e base_pattern current_timestamp [] hist = (None, hist)"
| "probe_offsets e base_pattern current_timestamp (offset # rest) hist =
     (let test_timestamp = current_timestamp + offset;
          test_slug = base_pattern @ ''-'' @ str_int test_timestamp
      in case fetch_market_by_slug e test_slug hist of
           (market, hist') \<Rightarrow>
             if found_active market then (market, hist')
             else probe_offsets e base_pattern current_timestamp rest hist')"

record match_entry =
  m_market :: dict
  m_slug :: string
  m_timestamp :: "int option"
  m_active :: json
  m_closed :: json

text \<open>The loop that filters the listing; a record that is not a dict, or whose slug is
  true but not a string, raises AttributeError.\<close>

fun matching_markets :: "string \<Rightarrow> json list \<Rightarrow> py_error + match_entry list" where
  "matching_markets base_pattern [] = Inr []"
| "matching_markets base_pattern (JObj market # rest) =
     (let slug = dict_get market ''slug'' (JStr []) in
      if \<not> truthy slug then matching_markets base_pattern rest
      else (case slug of
              JStr s \<Rightarrow>
                (let slug_lower = lower s; pattern_lower = lower base_pattern in
                 if sublist pattern_lower slug_lower \<or> prefix pattern_lower slug_lower then
                   (case matching_markets base_pattern rest of
                      Inl err \<Rightarrow> Inl err
                    | Inr ms \<Rightarrow>
                        Inr (\<lparr>m_market = market, m_slug = s,
                              m_timestamp = extract_timestamp_from_slug s,
                              m_active = (if truthy (dict_get market ''active'' (JBool True))
                                          then JBool (\<not> truthy (dict_get market ''closed'' (JBool False)))
                                          else dict_get market ''active'' (JBool True)),
                              m_closed = dict_get market ''closed'' (JBool False)\<rparr> # ms))
                 else matching_markets base_pattern rest)
            | _ \<Rightarrow> Inl AttributeError))"
| "matching_markets base_pattern (v # rest) = Inl AttributeError"

text \<open>The sort key \<^verbatim>\<open>x["timestamp"] or 0\<close>.\<close>

definition rank_key :: "match_entry \<Rightarrow> int" where
  "rank_key m = (case m_timestamp m of None \<Rightarrow> 0 | Some t \<Rightarrow> t)"

text \<open>
  \<^verbatim>\<open>matching_markets.sort(key=..., reverse=True)\<close>: Python's sort is stable also when
  reversed, so it is the stable ascending sort on the negated key.
\<close>

definition sort_most_recent_first :: "match_entry list \<Rightarrow> match_entry list" where
  "sort_most_recent_first ms = sort_key (\<lambda>m. - rank_key m) ms"

definition active_matches :: "match_entry list \<Rightarrow> match_entry list" where
  "active_matches ms =
     filter (\<lambda>m. truthy (m_active m) \<and> \<not> truthy (m_closed m)) (sort_most_recent_first ms)"

text \<open>The records of a listing response: a list, or the \<^verbatim>\<open>data\<close> field of a dict.\<close>

fun listing_of :: "json \<Rightarrow> py_error + json list" where
  "listing_of (JArr all_markets) = Inr all_markets"
| "listing_of (JObj d) =
     (let all_markets = dict_get d ''data'' (JArr []) in
      case py_len all_markets of
        Inl err \<Rightarrow> Inl err
      | Inr n \<Rightarrow> py_iter all_markets)"
| "listing_of v = Inr []"

text \<open>The fallback search on the body of the listing response.\<close>

definition pattern_search :: "string \<Rightarrow> json \<Rightarrow> dict option" where
  "pattern_search base_pattern body =
     (case listing_of body of
        Inl err \<Rightarrow> None
      | Inr all_markets \<Rightarrow>
          (case matching_markets base_pattern all_markets of
             Inl err \<Rightarrow> None
           | Inr ms \<Rightarrow>
               if ms = [] then None
               else (case active_matches ms of
                       [] \<Rightarrow> None
                     | best_match # _ \<Rightarrow> Some (m_market best_match))))"

definition search_all_markets :: "env \<Rightarrow> string \<Rightarrow> request list \<Rightarrow> dict option \<times> request list" where
  "search_all_markets e base_pattern hist =
     (let req = GetMarkets 500; hist' = hist @ [req]
      in case server e hist req of
           NoResponse \<Rightarrow> (None, hist')
         | Response status_code body \<Rightarrow>
             if 400 \<le> status_code \<and> status_code < 600 then (None, hist')
             else (case body of
                     None \<Rightarrow> (None, hist')
                   | Some v \<Rightarrow> (pattern_search base_pattern v, hist')))"

definition fetch_active_market_by_pattern :: "env \<Rightarrow> string \<Rightarrow> request list \<Rightarrow> dict option \<times> request list" where
  "fetch_active_market_by_pattern e slug_pattern hist =
     (let base_pattern = base_pattern_of slug_pattern;
          current_timestamp = get_current_15min_timestamp (clock e hist);
          current_slug = base_pattern @ ''-'' @ str_int current_timestamp
      in case fetch_market_by_slug e current_slug hist of
           (market, hist1) \<Rightarrow>
             if found_active market then (market, hist1)
             else (case probe_offsets e base_pattern current_timestamp [- 900, - 1800, 0, 900] hist1 of
                     (Some market, hist2) \<Rightarrow> (Some market, hist2)
                   | (None, hist2) \<Rightarrow> search_all_markets e base_pattern hist2))"

text \<open>The comprehension \<^verbatim>\<open>[m for m in data if m.get("active", True) and not
  m.get("closed", False)]\<close> needs every element to be a dict.\<close>

fun dicts_of :: "json list \<Rightarrow> py_error + dict list" where
  "dicts_of [] = Inr []"
| "dicts_of (JObj d # rest) =
     (case dicts_of rest of Inl err \<Rightarrow> Inl err | Inr ds \<Rightarrow> Inr (d # ds))"
| "dicts_of (v # rest) = Inl AttributeError"

definition condition_id_lookup :: "env \<Rightarrow> string \<Rightarrow> request list \<Rightarrow> dict option \<times> request list" where
  "condition_id_lookup e identifier_clean hist =
     (let req = GetMarketsByConditionIds identifier_clean; hist' = hist @ [req]
      in case server e hist req of
           Response status_code (Some (JArr data)) \<Rightarrow>
             if status_code = 200 \<and> data \<noteq> [] then
               (case dicts_of data of
                  Inl err \<Rightarrow> (None, hist')
                | Inr ds \<Rightarrow>
                    (case filter is_active ds of
                       m # _ \<Rightarrow> (Some m, hist')
                     | [] \<Rightarrow> (case ds of d # _ \<Rightarrow> (Some d, hist') | [] \<Rightarrow> (None, hist'))))
             else (None, hist')
         | Response status_code (Some (JObj data)) \<Rightarrow>
             if status_code = 200 then (Some data, hist') else (None, hist')
         | _ \<Rightarrow> (None, hist'))"

definition fetch_market_by_slug_or_condition_id :: "env \<Rightarrow> string \<Rightarrow> request list \<Rightarrow> dict option \<times> request list" where
  "fetch_market_by_slug_or_condition_id e identifier hist =
     (let identifier_clean = strip identifier in
      case (if is_15min_interval_market identifier_clean
            then fetch_active_market_by_pattern e identifier_clean hist else (None, hist)) of
        (pattern_market, hist1) \<Rightarrow>
          if pattern_market \<noteq> None \<and> pattern_market \<noteq> Some [] then (pattern_market, hist1)
          else
            (let is_slug = (CHR ''-'' \<in> set identifier_clean \<and> \<not> prefix ''0x'' identifier_clean) in
             case (if is_slug then fetch_market_by_slug e identifier_clean hist1 else (None, hist1)) of
               (market, hist2) \<Rightarrow>
                 if is_slug \<and> found_active market then (market, hist2)
                 else if \<not> found_active market then condition_id_lookup e identifier_clean hist2
                 else (None, hist2)))"

text \<open>\<^verbatim>\<open>xs[:limit]\<close> for an integer limit of either sign.\<close>

definition py_take :: "int \<Rightarrow> 'a list \<Rightarrow> 'a list" where
  "py_take limit xs =
     (if 0 \<le> limit then take (nat limit) xs else take (nat (int (length xs) + limit)) xs)"

text \<open>The body of the loop over \<^verbatim>\<open>self.featured_conditions\<close>: \<open>featured\<close> is the list
  built so far.\<close>

definition featured_step :: "py_builtins \<Rightarrow> env \<Rightarrow> string \<Rightarrow> dict list \<times> request list \<Rightarrow> dict list \<times> request list" where
  "featured_step py e condition_id st =
     (case st of (featured, hist) \<Rightarrow>
      let cid = strip condition_id in
      case fetch_market_by_slug_or_condition_id e cid hist of
        (None, hist') \<Rightarrow> (featured, hist')
      | (Some market, hist') \<Rightarrow>
          if market = [] then (featured, hist')
          else if \<not> is_active market \<and> is_15min_interval_market condition_id then (featured, hist')
          else (case format_market py market of
                  Inl err \<Rightarrow> (featured, hist')
                | Inr formatted0 \<Rightarrow>
                    (let formatted =
                       (if is_15min_interval_market condition_id
                        then formatted0 @ [(''_original_pattern'', JStr condition_id),
                                           (''_is_15min_interval'', JBool True)]
                        else formatted0)
                     in if is_active formatted then (featured @ [formatted], hist')
                        else (featured, hist'))))"

text \<open>The report after the loop slices \<^verbatim>\<open>condition_id\<close> and \<^verbatim>\<open>question\<close> of every
  market; an exception there reaches the outer handler, which returns the empty list.\<close>

definition reportable :: "dict \<Rightarrow> bool" where
  "reportable m =
     (sliceable (dict_get m ''condition_id'' (JStr ''N/A'')) \<and>
      sliceable (dict_get m ''question'' (JStr ''Unknown'')))"

text \<open>The branch taken when no identifier is configured; \<open>simplified\<close> is what
  \<^verbatim>\<open>self.read_client.get_simplified_markets()\<close> returned or raised.\<close>

fun format_each :: "py_builtins \<Rightarrow> json list \<Rightarrow> dict list" where
  "format_each py [] = []"
| "format_each py (JObj market # rest) =
     (case format_market py market of
        Inl err \<Rightarrow> format_each py rest
      | Inr formatted \<Rightarrow> formatted # format_each py rest)"
| "format_each py (v # rest) = format_each py rest"

definition popular_markets :: "py_builtins \<Rightarrow> py_error + json \<Rightarrow> int \<Rightarrow> dict list" where
  "popular_markets py simplified limit =
     (case simplified of
        Inr (JObj markets_response) \<Rightarrow>
          (case map_of markets_response ''data'' of
             Some (JArr markets_data) \<Rightarrow> format_each py (py_take limit markets_data)
           | _ \<Rightarrow> [])
      | _ \<Rightarrow> [])"

definition get_featured_markets ::
  "py_builtins \<Rightarrow> env \<Rightarrow> py_error + json \<Rightarrow> string list \<Rightarrow> int \<Rightarrow> request list \<Rightarrow> dict list \<times> request list" where
  "get_featured_markets py e simplified featured_conditions limit hist =
     (if featured_conditions \<noteq> [] then
        (case foldl (\<lambda>st condition_id. featured_step py e condition_id st) ([], hist) featured_conditions of
           (featured, hist') \<Rightarrow>
             if featured \<noteq> [] then
               (if list_all reportable featured then (featured, hist') else ([], hist'))
             else ([], hist'))
      else (popular_markets py simplified limit, hist))"


section \<open>Notions used to state the results on the cascade\<close>

text \<open>The request that a probe of a slug sends.\<close>

definition slug_request :: "string \<Rightarrow> request" where
  "slug_request slug = GetMarketBySlug (strip slug)"

text \<open>
  What \<^verbatim>\<open>_fetch_market_by_slug\<close> returns for each slug of a list when the slugs are
  probed one after the other, each probe after the requests of the earlier ones.
\<close>

fun probe_outcomes :: "env \<Rightarrow> string list \<Rightarrow> request list \<Rightarrow> dict option list" where
  "probe_outcomes e [] hist = []"
| "probe_outcomes e (slug # slugs) hist =
     fst (fetch_market_by_slug e slug hist) # probe_outcomes e slugs (hist @ [slug_request slug])"

text \<open>A record of a listing whose \<^verbatim>\<open>slug\<close>, when it has a true one, is a string.\<close>

definition slug_is_text :: "dict \<Rightarrow> bool" where
  "slug_is_text d =
     (case map_of d ''slug'' of
        None \<Rightarrow> True
      | Some (JStr s) \<Rightarrow> True
      | Some v \<Rightarrow> \<not> truthy v)"

text \<open>A record matches a base pattern when its slug, lower-cased, contains the lower-cased
  pattern or starts with it.\<close>

definition matches_pattern :: "string \<Rightarrow> dict \<Rightarrow> bool" where
  "matches_pattern base_pattern d =
     (case dict_get d ''slug'' (JStr []) of
        JStr s \<Rightarrow> s \<noteq> [] \<and> (sublist (lower base_pattern) (lower s) \<or> prefix (lower base_pattern) (lower s))
      | _ \<Rightarrow> False)"

text \<open>The rank of a record: the trailing timestamp of its slug, 0 when there is none.\<close>

definition slug_rank :: "dict \<Rightarrow> int" where
  "slug_rank d =
     (case dict_get d ''slug'' (JStr []) of
        JStr s \<Rightarrow> (case extract_timestamp_from_slug s of None \<Rightarrow> 0 | Some t \<Rightarrow> t)
      | _ \<Rightarrow> 0)"

text \<open>A listing record with the three fields the fallback search reads, for examples.\<close>

definition listed_market :: "string \<Rightarrow> bool \<Rightarrow> bool \<Rightarrow> dict" where
  "listed_market slug is_open is_closed =
     [(''slug'', JStr slug), (''active'', JBool is_open), (''closed'', JBool is_closed)]"

text \<open>
  What one identifier contributes to a batch: the normalised market when the cascade
  finds a non-empty record that is active and that normalises without an exception,
  nothing otherwise. A 15-minute identifier leaves its pattern on the market.
\<close>

definition resolve_one :: "py_builtins \<Rightarrow> env \<Rightarrow> string \<Rightarrow> request list \<Rightarrow> dict option \<times> request list" where
  "resolve_one py e condition_id hist =
     (case fetch_market_by_slug_or_condition_id e (strip condition_id) hist of
        (found, hist') \<Rightarrow>
          ((case found of
              None \<Rightarrow> None
            | Some market \<Rightarrow>
                if market \<noteq> [] \<and> is_active market then
                  (case format_market py market of
                     Inl err \<Rightarrow> None
                   | Inr formatted \<Rightarrow>
                       Some (if is_15min_interval_market condition_id
                             then formatted @ [(''_original_pattern'', JStr condition_id),
                                               (''_is_15min_interval'', JBool True)]
                             else formatted))
                else None),
           hist'))"

text \<open>
  A batch resolved as the specification words it: the identifiers are taken in input
  order, each after the requests of the earlier ones; the markets of those that resolve
  are kept in that order and the others leave nothing behind.
\<close>

fun resolve_batch :: "py_builtins \<Rightarrow> env \<Rightarrow> string list \<Rightarrow> request list \<Rightarrow> dict list \<times> request list" where
  "resolve_batch py e [] hist = ([], hist)"
| "resolve_batch py e (condition_id # rest) hist =
     (case resolve_one py e condition_id hist of
        (r, hist1) \<Rightarrow>
          (case resolve_batch py e rest hist1 of
             (rs, hist2) \<Rightarrow> ((case r of None \<Rightarrow> rs | Some formatted \<Rightarrow> formatted # rs), hist2)))"

text \<open>Records and a listing service for the examples of batch resolution: the service
  knows the slugs \<^verbatim>\<open>will-a-happen\<close> and \<^verbatim>\<open>will-c-happen\<close> and answers 404 to everything
  else.\<close>

definition open_market :: "string \<Rightarrow> string \<Rightarrow> dict" where
  "open_market slug question =
     [(''question'', JStr question), (''slug'', JStr slug),
      (''active'', JBool True), (''closed'', JBool False)]"

definition two_of_three :: env where
  "two_of_three =
     \<lparr>server = (\<lambda>h r.
        if r = GetMarketBySlug ''will-a-happen''
          then Response 200 (Some (JObj (open_market ''will-a-happen'' ''Will A happen?'')))
        else if r = GetMarketBySlug ''will-c-happen''
          then Response 200 (Some (JObj (open_market ''will-c-happen'' ''Will C happen?'')))
        else Response 404 None),
      clock = (\<lambda>h. \<lparr>days = 20000, hour = 10, minute = 17, second = 5, microsecond = 3\<rparr>)\<rparr>"

definition formatted_open_market :: "string \<Rightarrow> string \<Rightarrow> dict" where
  "formatted_open_market slug question =
     [(''condition_id'', JStr []), (''question'', JStr question), (''description'', JStr []),
      (''tokens'', JArr []), (''active'', JBool True), (''closed'', JBool False),
      (''end_date'', JStr []), (''slug'', JStr slug), (''eventSlug'', JStr slug)]"

section \<open>Results on utils.py\<close>

subsection \<open>The 15-minute window\<close>

lemma rounded_seconds:
  "get_current_15min_timestamp now =
     900 * ((int (days now) * 24 + int (hour now)) * 4 + int (minute now div 15))"
  by (simp add: get_current_15min_timestamp_def timestamp_us_def int_of_seconds_def Let_def algebra_simps)

lemma current_nonneg: "0 \<le> get_current_15min_timestamp now"
  by (simp add: rounded_seconds)

lemma timestamp_us_split:
  "timestamp_us now =
     900000000 * ((int (days now) * 24 + int (hour now)) * 4 + int (minute now div 15))
     + window_offset_us now"
proof -
  have "int (minute now) = 15 * int (minute now div 15) + int (minute now mod 15)"
    by (simp add: zdiv_int zmod_int)
  then show ?thesis
    by (simp add: timestamp_us_def window_offset_us_def algebra_simps)
qed

lemma window_offset_bounds:
  assumes "valid_datetime now"
  shows "0 \<le> window_offset_us now" and "window_offset_us now < 900000000"
proof -
  have m: "int (minute now mod 15) \<le> 14"
    by (simp add: zmod_int [symmetric] del: zmod_int)
  have s: "int (second now) \<le> 59" and u: "int (microsecond now) \<le> 999999"
    using assms by (simp_all add: valid_datetime_def)
  show "0 \<le> window_offset_us now"
    by (simp add: window_offset_us_def)
  show "window_offset_us now < 900000000"
    using m s u by (simp add: window_offset_us_def algebra_simps)
qed

lemma timestamp_us_window:
  "timestamp_us now = get_current_15min_timestamp now * 1000000 + window_offset_us now"
  by (simp add: timestamp_us_split rounded_seconds)

lemma current_is_floor:
  assumes "valid_datetime now"
  shows "get_current_15min_timestamp now = (timestamp_us now div 900000000) * 900"
proof -
  define q where "q = (int (days now) * 24 + int (hour now)) * 4 + int (minute now div 15)"
  have ts: "timestamp_us now = 900000000 * q + window_offset_us now"
    unfolding q_def by (rule timestamp_us_split)
  have "timestamp_us now div 900000000 = q"
    using ts window_offset_bounds [OF assms] by (simp add: div_pos_pos_trivial)
  then show ?thesis
    by (simp add: rounded_seconds q_def)
qed

text \<open>
  Claim C6. For a clock instant \<open>now\<close>, \<^verbatim>\<open>get_current_15min_timestamp\<close> returns
  \<open>floor(now / 900) * 900\<close> (\<open>now\<close> in seconds, here as microseconds over \<open>10^6\<close>): the
  result is a multiple of 900, it satisfies \<open>result \<le> now < result + 900\<close>, and it is the
  only multiple of 900 that does.
\<close>

theorem current_window_is_floor:
  assumes "valid_datetime now"
  shows "get_current_15min_timestamp now = (timestamp_us now div 900000000) * 900
       \<and> 900 dvd get_current_15min_timestamp now
       \<and> get_current_15min_timestamp now * 1000000 \<le> timestamp_us now
       \<and> timestamp_us now < (get_current_15min_timestamp now + 900) * 1000000
       \<and> (\<forall>k. 900 * k * 1000000 \<le> timestamp_us now \<and> timestamp_us now < (900 * k + 900) * 1000000
              \<longrightarrow> 900 * k = get_current_15min_timestamp now)"
proof -
  let ?w = "get_current_15min_timestamp now"
  have r: "0 \<le> window_offset_us now" "window_offset_us now < 900000000"
    using window_offset_bounds [OF assms] by simp_all
  have fl: "?w = (timestamp_us now div 900000000) * 900"
    using assms by (rule current_is_floor)
  have dv: "900 dvd ?w"
    by (simp add: rounded_seconds)
  have lo: "?w * 1000000 \<le> timestamp_us now"
    using r by (simp add: timestamp_us_window)
  have hi: "timestamp_us now < (?w + 900) * 1000000"
    using r by (simp add: timestamp_us_window algebra_simps)
  have un: "900 * k = ?w"
    if k: "900 * k * 1000000 \<le> timestamp_us now" "timestamp_us now < (900 * k + 900) * 1000000" for k
  proof -
    obtain q where q: "?w = 900 * q"
      using dv by (auto simp: dvd_def)
    have "900000000 * k < 900000000 * (q + 1)"
      using k(1) hi unfolding q by (simp add: algebra_simps)
    moreover have "900000000 * q < 900000000 * (k + 1)"
      using k(2) lo unfolding q by (simp add: algebra_simps)
    ultimately have "k = q" by simp
    then show ?thesis by (simp add: q)
  qed
  from fl dv lo hi un show ?thesis by blast
qed

theorem current_window_is_floor_witness:
  "valid_datetime \<lparr>days = 20000, hour = 10, minute = 17, second = 5, microsecond = 3\<rparr>
   \<and> get_current_15min_timestamp \<lparr>days = 20000, hour = 10, minute = 17, second = 5, microsecond = 3\<rparr>
       = 1728036900
   \<and> timestamp_us \<lparr>days = 20000, hour = 10, minute = 17, second = 5, microsecond = 3\<rparr>
       = 1728037025000003"
  using current_window_is_floor [of "\<lparr>days = 20000, hour = 10, minute = 17, second = 5, microsecond = 3\<rparr>"]
  by (simp add: valid_datetime_def timestamp_us_def)

subsection \<open>Seconds until the next window\<close>

lemma seconds_of_day_split:
  fixes ts :: int
  shows "((ts div 86400 * 24 + (ts mod 86400) div 3600) * 60 + (ts mod 3600) div 60) * 60 + ts mod 60 = ts"
proof -
  define r where "r = ts mod 86400"
  define r' where "r' = ts mod 3600"
  have a: "ts = ts div 86400 * 86400 + r"
    unfolding r_def by (rule div_mult_mod_eq [symmetric])
  have "r mod 3600 = r'"
    unfolding r_def r'_def by (rule mod_mod_cancel) simp
  then have b: "r = r div 3600 * 3600 + r'"
    using div_mult_mod_eq [of r 3600] by simp
  have "r' mod 60 = ts mod 60"
    unfolding r'_def by (rule mod_mod_cancel) simp
  then have c: "r' = r' div 60 * 60 + ts mod 60"
    using div_mult_mod_eq [of r' 60] by simp
  have "((ts div 86400 * 24 + r div 3600) * 60 + r' div 60) * 60 + ts mod 60
        = ts div 86400 * 86400 + (r div 3600 * 3600 + (r' div 60 * 60 + ts mod 60))"
    by (simp add: algebra_simps)
  also have "\<dots> = ts"
    using a b c by simp
  finally show ?thesis
    unfolding r_def r'_def .
qed

lemma timestamp_us_fromtimestamp:
  assumes "0 \<le> ts"
  shows "timestamp_us (fromtimestamp ts) = ts * 1000000"
proof -
  have d: "int (nat (ts div 86400)) = ts div 86400"
    using assms by simp
  have h: "int (nat (ts mod 86400 div 3600)) = ts mod 86400 div 3600"
    by (simp add: pos_imp_zdiv_nonneg_iff)
  have m: "int (nat (ts mod 3600 div 60)) = ts mod 3600 div 60"
    by (simp add: pos_imp_zdiv_nonneg_iff)
  have s: "int (nat (ts mod 60)) = ts mod 60"
    by simp
  have "timestamp_us (fromtimestamp ts) =
     (((ts div 86400 * 24 + (ts mod 86400) div 3600) * 60 + (ts mod 3600) div 60) * 60 + ts mod 60) * 1000000"
    unfolding timestamp_us_def fromtimestamp_def by (simp only: datetime.simps d h m s)
  then show ?thesis
    by (simp only: seconds_of_day_split)
qed

lemma seconds_until_eq:
  assumes "valid_datetime now"
  shows "get_seconds_until_next_15min now now = (900000000 - window_offset_us now) div 1000000"
proof -
  have "timestamp_us (fromtimestamp (get_current_15min_timestamp now + 900))
        = (get_current_15min_timestamp now + 900) * 1000000"
    using current_nonneg [of now] by (intro timestamp_us_fromtimestamp) simp
  then have "timestamp_us (fromtimestamp (get_current_15min_timestamp now + 900)) - timestamp_us now
        = 900000000 - window_offset_us now"
    by (simp add: timestamp_us_window algebra_simps)
  then show ?thesis
    using window_offset_bounds [OF assms]
    by (simp add: get_seconds_until_next_15min_def Let_def int_of_seconds_def)
qed

text \<open>
  Claim C5 says that the seconds until the next window are in \<open>[0, 900)\<close>, also on a window
  boundary. On a boundary the code returns 900: the next interval is a full 900 seconds
  away.
\<close>

theorem seconds_until_next_on_boundary:
  "\<not> get_seconds_until_next_15min
        \<lparr>days = 20000, hour = 10, minute = 15, second = 0, microsecond = 0\<rparr>
        \<lparr>days = 20000, hour = 10, minute = 15, second = 0, microsecond = 0\<rparr> < 900"
  by (simp add: get_seconds_until_next_15min_def get_current_15min_timestamp_def timestamp_us_def
      fromtimestamp_def int_of_seconds_def Let_def)

text \<open>
  Claim C5, amended. With the clock at one instant \<open>now\<close> during the call,
  \<^verbatim>\<open>get_seconds_until_next_15min\<close> returns an integer in \<open>[0, 900]\<close>, and it returns 900
  exactly when \<open>now\<close> is on a window boundary.
\<close>

theorem seconds_until_next_range:
  assumes "valid_datetime now"
  shows "0 \<le> get_seconds_until_next_15min now now
       \<and> get_seconds_until_next_15min now now \<le> 900
       \<and> (get_seconds_until_next_15min now now = 900 \<longleftrightarrow>
            minute now mod 15 = 0 \<and> second now = 0 \<and> microsecond now = 0)"
proof -
  let ?r = "window_offset_us now"
  have r: "0 \<le> ?r" "?r < 900000000" using window_offset_bounds [OF assms] by simp_all
  have eq: "get_seconds_until_next_15min now now = (900000000 - ?r) div 1000000"
    using assms by (rule seconds_until_eq)
  have 1: "0 \<le> (900000000 - ?r) div 1000000" using r by simp
  have 2: "(900000000 - ?r) div 1000000 \<le> 900" using r by simp
  have 3: "(900000000 - ?r) div 1000000 = 900 \<longleftrightarrow> ?r = 0" using r by auto
  have 4: "?r = 0 \<longleftrightarrow> minute now mod 15 = 0 \<and> second now = 0 \<and> microsecond now = 0"
    by (auto simp: window_offset_us_def)
  show ?thesis using eq 1 2 3 4 by simp
qed

theorem seconds_until_next_range_witness:
  "valid_datetime \<lparr>days = 20000, hour = 10, minute = 17, second = 5, microsecond = 3\<rparr>
   \<and> get_seconds_until_next_15min
        \<lparr>days = 20000, hour = 10, minute = 17, second = 5, microsecond = 3\<rparr>
        \<lparr>days = 20000, hour = 10, minute = 17, second = 5, microsecond = 3\<rparr> = 774"
  using seconds_until_next_range [of "\<lparr>days = 20000, hour = 10, minute = 17, second = 5, microsecond = 3\<rparr>"]
  by (simp add: valid_datetime_def get_seconds_until_next_15min_def get_current_15min_timestamp_def
      timestamp_us_def fromtimestamp_def int_of_seconds_def Let_def)

subsection \<open>Splitting, joining and decimal numerals\<close>

lemma split_on_nonempty: "split_on c s \<noteq> []"
  by (induction s) (auto split: list.splits)

lemma split_on_no_sep: "c \<notin> set t \<Longrightarrow> split_on c t = [t]"
  by (induction t) auto

lemma split_on_append_sep: "split_on c (s @ c # t) = split_on c s @ split_on c t"
  by (induction s) (auto split: list.splits simp: split_on_nonempty)

lemma join_split_on: "join c (split_on c s) = s"
proof (induction s)
  case Nil
  show ?case by simp
next
  case (Cons x xs)
  obtain p ps where ps: "split_on c xs = p # ps"
    using split_on_nonempty [of c xs] by (cases "split_on c xs") auto
  show ?case
  proof (cases "x = c")
    case True
    with Cons ps show ?thesis by simp
  next
    case False
    with Cons ps show ?thesis by (cases ps) auto
  qed
qed

lemma char_of_digit: "d < 10 \<Longrightarrow> of_char (char_of (48 + d :: nat)) = 48 + d"
  by simp

lemma ascii_digit_char_of: "d < 10 \<Longrightarrow> ascii_digit (char_of (48 + d :: nat))"
  by (simp add: ascii_digit_def)

lemma str_nat_digits: "str_nat n \<noteq> [] \<and> list_all ascii_digit (str_nat n)"
proof (induction n rule: str_nat.induct)
  case (1 n)
  show ?case
  proof (cases "n < 10")
    case True
    then show ?thesis by (simp add: str_nat.simps [of n] ascii_digit_char_of)
  next
    case False
    have "n mod 10 < 10" by simp
    then have "ascii_digit (char_of (48 + n mod 10))" by (rule ascii_digit_char_of)
    with False 1 show ?thesis by (simp add: str_nat.simps [of n])
  qed
qed

lemma digits_value_snoc: "digits_value (s @ [c]) = 10 * digits_value s + (of_char c - 48)"
  by (simp add: digits_value_def)

lemma digits_value_str_nat: "digits_value (str_nat n) = n"
proof (induction n rule: str_nat.induct)
  case (1 n)
  show ?case
  proof (cases "n < 10")
    case True
    then show ?thesis by (simp add: str_nat.simps [of n] digits_value_def)
  next
    case False
    have "n mod 10 < 10" by simp
    then have "of_char (char_of (48 + n mod 10)) = 48 + n mod 10" by (rule char_of_digit)
    with False 1 show ?thesis by (simp add: str_nat.simps [of n] digits_value_snoc)
  qed
qed

lemma ascii_digit_isdigit: "ascii_digit c \<Longrightarrow> py_isdigit_char c"
  by (auto simp: ascii_digit_def py_isdigit_char_def Let_def)

lemma ascii_digit_not_dash: "ascii_digit c \<Longrightarrow> c \<noteq> CHR ''-''"
  by (auto simp: ascii_digit_def)

lemma isdigit_str_nat: "isdigit (str_nat n)"
  using str_nat_digits [of n] ascii_digit_isdigit by (auto simp: isdigit_def list_all_iff)

lemma split_on_stamped:
  "split_on CHR ''-'' (b @ CHR ''-'' # str_nat n) = split_on CHR ''-'' b @ [str_nat n]"
proof -
  have "CHR ''-'' \<notin> set (str_nat n)"
    using str_nat_digits [of n] ascii_digit_not_dash by (auto simp: list_all_iff)
  then show ?thesis
    by (simp add: split_on_append_sep split_on_no_sep)
qed

subsection \<open>Stamping a slug with the current window\<close>

lemma str_int_current:
  "str_int (get_current_15min_timestamp now) = str_nat (nat (get_current_15min_timestamp now))"
  using current_nonneg [of now] by (simp add: str_int_def)

lemma update_slug_shape:
  "\<exists>bp. update_slug_with_current_timestamp now s =
     join CHR ''-'' bp @ CHR ''-'' # str_nat (nat (get_current_15min_timestamp now))"
  by (auto simp: update_slug_with_current_timestamp_def Let_def str_int_current)

lemma update_slug_stamped:
  "update_slug_with_current_timestamp now (b @ CHR ''-'' # str_nat n) =
     b @ CHR ''-'' # str_nat (nat (get_current_15min_timestamp now))"
  by (simp add: update_slug_with_current_timestamp_def Let_def split_on_stamped isdigit_str_nat
      split_on_nonempty join_split_on str_int_current)

lemma extract_stamped:
  "extract_timestamp_from_slug (b @ CHR ''-'' # str_nat n) = Some (int n)"
  using str_nat_digits [of n]
  by (simp add: extract_timestamp_from_slug_def Let_def split_on_stamped isdigit_str_nat
      int_of_str_def digits_value_str_nat)

text \<open>
  Claim C10. At a fixed clock instant, \<^verbatim>\<open>update_slug_with_current_timestamp\<close> applied
  twice equals applying it once; its output ends in \<^verbatim>\<open>"-"\<close> followed by the current window
  start; and \<^verbatim>\<open>extract_timestamp_from_slug\<close> of the output is the current window start.
\<close>

theorem update_slug_idempotent_and_stamped:
  "update_slug_with_current_timestamp now (update_slug_with_current_timestamp now s) =
     update_slug_with_current_timestamp now s
   \<and> suffix (''-'' @ str_int (get_current_15min_timestamp now))
        (update_slug_with_current_timestamp now s)
   \<and> extract_timestamp_from_slug (update_slug_with_current_timestamp now s) =
       Some (get_current_15min_timestamp now)"
proof -
  obtain bp where bp: "update_slug_with_current_timestamp now s =
     join CHR ''-'' bp @ CHR ''-'' # str_nat (nat (get_current_15min_timestamp now))"
    using update_slug_shape by blast
  have 1: "update_slug_with_current_timestamp now (update_slug_with_current_timestamp now s) =
     update_slug_with_current_timestamp now s"
    unfolding bp by (rule update_slug_stamped)
  have 2: "suffix (''-'' @ str_int (get_current_15min_timestamp now))
             (update_slug_with_current_timestamp now s)"
    unfolding bp by (simp add: str_int_current suffix_def)
  have 3: "extract_timestamp_from_slug (update_slug_with_current_timestamp now s) =
       Some (get_current_15min_timestamp now)"
    unfolding bp using current_nonneg [of now] by (simp add: extract_stamped)
  from 1 2 3 show ?thesis by blast
qed

section \<open>Results on the listing service and the classification of identifiers\<close>

subsection \<open>Requests sent by the fetch operations\<close>

lemma fetch_market_by_slug_hist:
  "snd (fetch_market_by_slug e slug hist) = hist @ [GetMarketBySlug (strip slug)]"
  by (simp add: fetch_market_by_slug_def Let_def split: response.splits option.splits json.splits)

lemma condition_id_lookup_hist:
  "snd (condition_id_lookup e c hist) = hist @ [GetMarketsByConditionIds c]"
  by (simp add: condition_id_lookup_def Let_def
      split: response.splits option.splits json.splits sum.splits list.splits)

lemma dropWhile_unchanged: "xs = [] \<or> \<not> P (hd xs) \<Longrightarrow> dropWhile P xs = xs"
  by (cases xs) auto

lemma dropWhile_head: "dropWhile P xs = [] \<or> \<not> P (hd (dropWhile P xs))"
  using hd_dropWhile [of P xs] by blast

lemma strip_strip: "strip (strip s) = strip s"
proof -
  define u where "u = dropWhile py_isspace s"
  define v where "v = dropWhile py_isspace (rev u)"
  have st: "strip s = rev v" by (simp add: strip_def u_def v_def)
  have u: "u = [] \<or> \<not> py_isspace (hd u)" unfolding u_def by (rule dropWhile_head)
  have v: "v = [] \<or> \<not> py_isspace (hd v)" unfolding v_def by (rule dropWhile_head)
  have "rev u = takeWhile py_isspace (rev u) @ v"
    unfolding v_def by simp
  then have "u = rev v @ rev (takeWhile py_isspace (rev u))"
    by (metis rev_append rev_rev_ident)
  then have "v \<noteq> [] \<Longrightarrow> hd (rev v) = hd u \<and> u \<noteq> []"
    by (metis hd_append2 rev_is_Nil_conv append_is_Nil_conv)
  with u have "rev v = [] \<or> \<not> py_isspace (hd (rev v))" by auto
  then have a: "dropWhile py_isspace (rev v) = rev v" by (rule dropWhile_unchanged)
  have b: "dropWhile py_isspace v = v" using v by (rule dropWhile_unchanged)
  have "strip (rev v) = rev v" unfolding strip_def by (simp add: a b)
  then show ?thesis by (simp only: st)
qed

lemma static_requests:
  assumes "\<not> is_15min_interval_market (strip ident)"
  shows "\<exists>new. snd (fetch_market_by_slug_or_condition_id e ident hist) = hist @ new
      \<and> set new \<subseteq> {GetMarketBySlug (strip ident), GetMarketsByConditionIds (strip ident)}"
proof -
  let ?c = "strip ident"
  show ?thesis
  proof (cases "CHR ''-'' \<in> set ?c \<and> \<not> prefix ''0x'' ?c")
    case True
    obtain m h where f: "fetch_market_by_slug e ?c hist = (m, h)" by (cases "fetch_market_by_slug e ?c hist")
    have h: "h = hist @ [GetMarketBySlug ?c]"
      using fetch_market_by_slug_hist [of e ?c hist] f by (simp add: strip_strip)
    show ?thesis
    proof (cases "found_active m")
      case fa: True
      with assms True f h show ?thesis
        by (simp add: fetch_market_by_slug_or_condition_id_def Let_def)
    next
      case False
      with assms True f h condition_id_lookup_hist [of e ?c h] show ?thesis
        by (simp add: fetch_market_by_slug_or_condition_id_def Let_def)
    qed
  next
    case False
    with assms condition_id_lookup_hist [of e ?c hist] show ?thesis
      by (auto simp add: fetch_market_by_slug_or_condition_id_def Let_def)
  qed
qed


text \<open>
  Claim C3 says that fetch-by-slug gives a 404 one outcome (NotFound) and a server error
  or a network failure another (TransientFetchError). The code returns \<^verbatim>\<open>None\<close> in all
  three cases: the results for a 404, a 503 and no response at all are equal.
\<close>

theorem fetch_by_slug_conflates_failures:
  "fetch_market_by_slug
     \<lparr>server = (\<lambda>h r. Response 404 None),
      clock = (\<lambda>h. \<lparr>days = 20000, hour = 10, minute = 17, second = 5, microsecond = 3\<rparr>)\<rparr>
     ''btc-updown-15m-1728036900'' []
   = fetch_market_by_slug
     \<lparr>server = (\<lambda>h r. Response 503 None),
      clock = (\<lambda>h. \<lparr>days = 20000, hour = 10, minute = 17, second = 5, microsecond = 3\<rparr>)\<rparr>
     ''btc-updown-15m-1728036900'' []
   \<and> fetch_market_by_slug
     \<lparr>server = (\<lambda>h r. Response 404 None),
      clock = (\<lambda>h. \<lparr>days = 20000, hour = 10, minute = 17, second = 5, microsecond = 3\<rparr>)\<rparr>
     ''btc-updown-15m-1728036900'' []
   = fetch_market_by_slug
     \<lparr>server = (\<lambda>h r. NoResponse),
      clock = (\<lambda>h. \<lparr>days = 20000, hour = 10, minute = 17, second = 5, microsecond = 3\<rparr>)\<rparr>
     ''btc-updown-15m-1728036900'' []"
  by (simp add: fetch_market_by_slug_def Let_def)

text \<open>
  Claim C3, amended. For every slug, \<^verbatim>\<open>_fetch_market_by_slug\<close> sends the one request
  \<^verbatim>\<open>GET /markets/slug/{slug.strip()}\<close>; it returns \<^verbatim>\<open>None\<close> when there is no response
  and when the status is any 4xx or 5xx (404 included), and it returns the record when
  the status is outside 400..599 and the body is a JSON object whose \<^verbatim>\<open>question\<close> can be
  sliced.
\<close>

theorem fetch_by_slug_outcomes:
  "snd (fetch_market_by_slug e slug hist) = hist @ [GetMarketBySlug (strip slug)]
   \<and> (server e hist (GetMarketBySlug (strip slug)) = NoResponse
        \<longrightarrow> fst (fetch_market_by_slug e slug hist) = None)
   \<and> (\<forall>status_code body. server e hist (GetMarketBySlug (strip slug)) = Response status_code body
          \<and> 400 \<le> status_code \<and> status_code < 600
        \<longrightarrow> fst (fetch_market_by_slug e slug hist) = None)
   \<and> (\<forall>status_code market. server e hist (GetMarketBySlug (strip slug)) = Response status_code (Some (JObj market))
          \<and> \<not> (400 \<le> status_code \<and> status_code < 600)
          \<and> sliceable (dict_get market ''question'' (JStr ''Unknown''))
        \<longrightarrow> fst (fetch_market_by_slug e slug hist) = Some market)"
  by (intro conjI allI impI;
      (rule fetch_market_by_slug_hist | auto simp add: fetch_market_by_slug_def Let_def))

theorem fetch_by_slug_outcomes_witness:
  "fetch_market_by_slug
     \<lparr>server = (\<lambda>h r. if r = GetMarketBySlug ''a-1'' then Response 200 (Some (JObj [(''slug'', JStr ''a-1'')]))
                      else if r = GetMarketBySlug ''a-2'' then Response 503 None
                      else if r = GetMarketBySlug ''a-3'' then NoResponse
                      else Response 404 None),
      clock = (\<lambda>h. \<lparr>days = 20000, hour = 10, minute = 17, second = 5, microsecond = 3\<rparr>)\<rparr>
     '' a-1 '' [] = (Some [(''slug'', JStr ''a-1'')], [GetMarketBySlug ''a-1''])"
  using fetch_by_slug_outcomes [of
     "\<lparr>server = (\<lambda>h r. if r = GetMarketBySlug ''a-1'' then Response 200 (Some (JObj [(''slug'', JStr ''a-1'')]))
                      else if r = GetMarketBySlug ''a-2'' then Response 503 None
                      else if r = GetMarketBySlug ''a-3'' then NoResponse
                      else Response 404 None),
      clock = (\<lambda>h. \<lparr>days = 20000, hour = 10, minute = 17, second = 5, microsecond = 3\<rparr>)\<rparr>"
     "'' a-1 ''" "[]"]
  by (simp add: strip_def py_isspace_def dict_get_def prod_eq_iff)


subsection \<open>Classifying identifiers\<close>

lemma lower_char_dash: "lower_char c = CHR ''-'' \<longleftrightarrow> c = CHR ''-''"
proof
  assume l: "lower_char c = CHR ''-''"
  show "c = CHR ''-''"
  proof (rule ccontr)
    assume n: "c \<noteq> CHR ''-''"
    with l have up: "(65 \<le> (of_char c :: nat) \<and> (of_char c :: nat) \<le> 90)
        \<or> (192 \<le> (of_char c :: nat) \<and> (of_char c :: nat) \<le> 222 \<and> (of_char c :: nat) \<noteq> 215)"
      and eq: "char_of ((of_char c :: nat) + 32) = CHR ''-''"
      by (auto simp: lower_char_def Let_def split: if_splits)
    from eq have "(of_char (char_of ((of_char c :: nat) + 32) :: char) :: nat) = of_char CHR ''-''"
      by simp
    then have "((of_char c :: nat) + 32) mod 256 = 45"
      by simp
    with up show False by auto
  qed
next
  assume "c = CHR ''-''"
  then show "lower_char c = CHR ''-''" by (simp add: lower_char_def)
qed

lemma lower_no_dash: "CHR ''-'' \<notin> set ident \<Longrightarrow> CHR ''-'' \<notin> set (lower ident)"
proof
  assume a: "CHR ''-'' \<notin> set ident" and "CHR ''-'' \<in> set (lower ident)"
  then obtain c where c: "c \<in> set ident" "lower_char c = CHR ''-''"
    by (auto simp: lower_def)
  then have "c = CHR ''-''" by (simp add: lower_char_dash)
  with a c show False by simp
qed

lemma no_dash_not_15min:
  assumes "CHR ''-'' \<notin> set ident"
  shows "\<not> is_15min_interval_market ident"
proof -
  have l: "CHR ''-'' \<notin> set (lower ident)" using assms by (rule lower_no_dash)
  have 1: "\<not> sublist ''-15m-'' (lower ident)"
    using l by (auto simp: sublist_def)
  have 2: "\<not> prefix ''btc-updown-15m'' (lower ident)"
    using l by (auto simp: prefix_def)
  have 3: "\<not> prefix ''eth-updown-15m'' (lower ident)"
    using l by (auto simp: prefix_def)
  from 1 2 3 show ?thesis by (simp add: is_15min_interval_market_def)
qed

section \<open>Results on normalisation\<close>

text \<open>
  Claim C4 says that normalisation never raises and that a malformed price on one token
  degrades to the default without losing the other tokens. In the structured-array shape
  the price goes through \<^verbatim>\<open>float(token.get("price", 0.5))\<close> with no handler: a token whose
  price is \<^verbatim>\<open>null\<close> makes \<^verbatim>\<open>_format_market\<close> raise TypeError, whatever the other tokens
  are, and a price \<^verbatim>\<open>"abc"\<close> makes it raise ValueError as soon as \<^verbatim>\<open>float("abc")\<close> does.
  The delimited-string shape catches the same failure and uses 0.5.
\<close>

theorem format_market_bad_price:
  "format_market py
     [(''condition_id'', JStr ''0xabc''),
      (''tokens'', JArr [JObj [(''token_id'', JStr ''1''), (''outcome'', JStr ''Yes''), (''price'', JNull)],
                         JObj [(''token_id'', JStr ''2''), (''outcome'', JStr ''No''), (''price'', JFloat 0.4)]])]
     = Inl TypeError
   \<and> format_market py
     [(''condition_id'', JStr ''0xabc''),
      (''clobTokenIds'', JStr ''1,2''),
      (''outcomePrices'', JArr [JNull, JFloat 0.4])]
     = Inr [(''condition_id'', JStr ''0xabc''),
            (''question'', JStr ''Unknown Market''), (''description'', JStr []),
            (''tokens'', JArr [mk_token (JStr ''1'') (JStr ''Yes'') 0.5 (JBool False),
                               mk_token (JStr ''2'') (JStr ''No'') 0.4 (JBool False)]),
            (''active'', JBool True), (''closed'', JBool False),
            (''end_date'', JStr []), (''slug'', JStr []), (''eventSlug'', JStr [])]
   \<and> format_market py
     [(''condition_id'', JStr ''0xabc''),
      (''tokens'', JArr [JObj [(''token_id'', JStr ''1''), (''outcome'', JStr ''Yes''), (''price'', JStr ''abc'')],
                         JObj [(''token_id'', JStr ''2''), (''outcome'', JStr ''No''), (''price'', JFloat 0.4)]])]
     = (case float_of_str py ''abc'' of
          None \<Rightarrow> Inl ValueError
        | Some r \<Rightarrow>
            Inr [(''condition_id'', JStr ''0xabc''),
                 (''question'', JStr ''Unknown Market''), (''description'', JStr []),
                 (''tokens'', JArr [mk_token (JStr ''1'') (JStr ''Yes'') r (JBool False),
                                    mk_token (JStr ''2'') (JStr ''No'') 0.4 (JBool False)]),
                 (''active'', JBool True), (''closed'', JBool False),
                 (''end_date'', JStr []), (''slug'', JStr []), (''eventSlug'', JStr [])])"
  by (simp add: format_market_def extract_tokens_def dict_get_def Let_def outcome_list_of_def
     strip_def py_isspace_def outcome_at_def token_price_def float_or_default_def py_or_def
     split: option.splits)

subsection \<open>Normalising a normalised record\<close>

lemma canonical_mk_token: "canonical_token (mk_token token_id outcome price winner)"
  unfolding canonical_token_def by blast

lemma tokens_from_ids_canonical:
  "tokens_from_ids py market outcome_list i ids = Inr toks \<Longrightarrow> list_all canonical_token toks"
proof (induction ids arbitrary: i toks)
  case Nil
  then show ?case by simp
next
  case (Cons token_id rest)
  then show ?case
    by (auto simp: canonical_mk_token split: sum.splits)
qed

lemma tokens_from_array_canonical:
  "list_all canonical_token acc \<Longrightarrow> tokens_from_array py acc ts = Inr toks
   \<Longrightarrow> list_all canonical_token toks"
proof (induction py acc ts rule: tokens_from_array.induct)
  case (1 py tokens)
  then show ?case by simp
next
  case (2 py tokens token rest)
  then show ?case
    by (auto simp: canonical_mk_token split: sum.splits)
next
  case (3 py tokens token rest)
  then show ?case
    by (auto simp: canonical_mk_token)
qed simp_all

lemma extract_tokens_canonical:
  assumes "extract_tokens py market = Inr toks"
  shows "list_all canonical_token toks"
proof (cases "truthy (dict_get market ''clobTokenIds'' (JStr []))")
  case True
  with assms show ?thesis
    by (simp add: extract_tokens_def Let_def tokens_from_ids_canonical)
next
  case False
  show ?thesis
  proof (cases "truthy (dict_get market ''tokens'' JNull)")
    case t: True
    with False assms obtain ts where "tokens_from_array py [] ts = Inr toks"
      by (auto simp: extract_tokens_def Let_def split: sum.splits)
    then show ?thesis
      using tokens_from_array_canonical [of "[]" py ts toks] by simp
  next
    case f: False
    with False assms show ?thesis
      by (simp add: extract_tokens_def Let_def)
  qed
qed

lemma tokens_from_array_of_canonical:
  "list_all canonical_token toks \<Longrightarrow> tokens_from_array py acc toks = Inr (acc @ toks)"
proof (induction toks arbitrary: acc)
  case Nil
  then show ?case by simp
next
  case (Cons t toks)
  then obtain token_id outcome price winner where t: "t = mk_token token_id outcome price winner"
    by (auto simp: canonical_token_def)
  have "tokens_from_array py acc (t # toks) = tokens_from_array py (acc @ [t]) toks"
    by (simp add: t mk_token_def dict_get_def)
  with Cons show ?case by simp
qed


lemma format_market_shape:
  assumes "format_market py market = Inr out"
  shows "\<exists>condition_id question description toks active_v closed_v end_date slug event_slug.
     out = [(''condition_id'', condition_id), (''question'', question),
            (''description'', description), (''tokens'', JArr toks),
            (''active'', active_v), (''closed'', closed_v), (''end_date'', end_date),
            (''slug'', slug), (''eventSlug'', event_slug)]
     \<and> list_all canonical_token toks
     \<and> \<not> (toks = [] \<and> truthy condition_id \<and> \<not> sliceable condition_id)"
proof -
  from assms obtain toks where ex: "extract_tokens py market = Inr toks"
    by (auto simp: format_market_def Let_def split: sum.splits)
  have can: "list_all canonical_token toks"
    using ex by (rule extract_tokens_canonical)
  from assms ex show ?thesis
    using can by (auto simp: format_market_def Let_def split: if_splits)
qed

lemma format_canonical:
  assumes can: "list_all canonical_token toks"
    and ok: "\<not> (toks = [] \<and> truthy condition_id \<and> \<not> sliceable condition_id)"
  shows "format_market py
           [(''condition_id'', condition_id), (''question'', question),
            (''description'', description), (''tokens'', JArr toks),
            (''active'', active_v), (''closed'', closed_v), (''end_date'', end_date),
            (''slug'', slug), (''eventSlug'', event_slug)]
       = Inr [(''condition_id'', condition_id), (''question'', question),
            (''description'', description), (''tokens'', JArr toks),
            (''active'', active_v), (''closed'', closed_v), (''end_date'', JStr []),
            (''slug'', py_or slug event_slug), (''eventSlug'', py_or event_slug slug)]"
proof -
  let ?out = "[(''condition_id'', condition_id), (''question'', question),
            (''description'', description), (''tokens'', JArr toks),
            (''active'', active_v), (''closed'', closed_v), (''end_date'', end_date),
            (''slug'', slug), (''eventSlug'', event_slug)]"
  have ex: "extract_tokens py ?out = Inr toks"
    using tokens_from_array_of_canonical [OF can, of py "[]"]
    by (simp add: extract_tokens_def dict_get_def Let_def)
  show ?thesis
    using ok by (simp add: format_market_def ex Let_def) (simp add: dict_get_def py_or_def)
qed

text \<open>
  Claim C8, amended. Feeding a record produced by normalisation back through normalisation
  never raises and gives the same record except for three fields: \<^verbatim>\<open>end_date\<close> becomes the
  empty string (the output key \<^verbatim>\<open>end_date\<close> is not one of the input keys
  \<^verbatim>\<open>end_date_iso\<close>, \<^verbatim>\<open>endDate\<close>), \<^verbatim>\<open>slug\<close> becomes \<^verbatim>\<open>slug or eventSlug\<close> and
  \<^verbatim>\<open>eventSlug\<close> becomes \<^verbatim>\<open>eventSlug or slug\<close>. So the record is returned unchanged when
  its \<^verbatim>\<open>end_date\<close> is empty and its slug fields are non-empty.
\<close>

theorem renormalising_resets_end_date:
  assumes "format_market py market = Inr out"
  shows "format_market py out =
           Inr (dict_set ''eventSlug'' (py_or (dict_get out ''eventSlug'' JNull) (dict_get out ''slug'' JNull))
               (dict_set ''slug'' (py_or (dict_get out ''slug'' JNull) (dict_get out ''eventSlug'' JNull))
               (dict_set ''end_date'' (JStr []) out)))
       \<and> (dict_get out ''end_date'' JNull = JStr [] \<and> truthy (dict_get out ''slug'' JNull)
            \<and> truthy (dict_get out ''eventSlug'' JNull)
          \<longrightarrow> format_market py out = Inr out)"
proof -
  obtain condition_id question description toks active_v closed_v end_date slug event_slug
    where out: "out = [(''condition_id'', condition_id), (''question'', question),
            (''description'', description), (''tokens'', JArr toks),
            (''active'', active_v), (''closed'', closed_v), (''end_date'', end_date),
            (''slug'', slug), (''eventSlug'', event_slug)]"
      and can: "list_all canonical_token toks"
      and ok: "\<not> (toks = [] \<and> truthy condition_id \<and> \<not> sliceable condition_id)"
    using format_market_shape [OF assms] by blast
  have f: "format_market py out = Inr [(''condition_id'', condition_id), (''question'', question),
            (''description'', description), (''tokens'', JArr toks),
            (''active'', active_v), (''closed'', closed_v), (''end_date'', JStr []),
            (''slug'', py_or slug event_slug), (''eventSlug'', py_or event_slug slug)]"
    unfolding out using can ok by (rule format_canonical)
  have g: "dict_get out ''slug'' JNull = slug" "dict_get out ''eventSlug'' JNull = event_slug"
      "dict_get out ''end_date'' JNull = end_date"
    by (simp_all add: out dict_get_def)
  have 1: "format_market py out =
           Inr (dict_set ''eventSlug'' (py_or (dict_get out ''eventSlug'' JNull) (dict_get out ''slug'' JNull))
               (dict_set ''slug'' (py_or (dict_get out ''slug'' JNull) (dict_get out ''eventSlug'' JNull))
               (dict_set ''end_date'' (JStr []) out)))"
    unfolding f g by (simp add: out)
  have 2: "format_market py out = Inr out"
    if "dict_get out ''end_date'' JNull = JStr []" "truthy (dict_get out ''slug'' JNull)"
       "truthy (dict_get out ''eventSlug'' JNull)"
    using that unfolding f g by (simp add: out py_or_def)
  from 1 2 show ?thesis by blast
qed

text \<open>
  Claim C8 says that normalising a normalised record gives the same record. A record with an
  end date loses it the second time.
\<close>

theorem renormalising_loses_end_date:
  "\<forall>py. format_market py
          [(''question'', JStr ''Up or down?''), (''end_date_iso'', JStr ''2025-12-31T23:59:59Z''),
           (''slug'', JStr ''btc-updown-15m-1761921000'')]
        = Inr [(''condition_id'', JStr []), (''question'', JStr ''Up or down?''),
            (''description'', JStr []), (''tokens'', JArr []),
            (''active'', JBool True), (''closed'', JBool False),
            (''end_date'', JStr ''2025-12-31T23:59:59Z''),
            (''slug'', JStr ''btc-updown-15m-1761921000''),
            (''eventSlug'', JStr ''btc-updown-15m-1761921000'')]
     \<and> format_market py
          [(''condition_id'', JStr []), (''question'', JStr ''Up or down?''),
            (''description'', JStr []), (''tokens'', JArr []),
            (''active'', JBool True), (''closed'', JBool False),
            (''end_date'', JStr ''2025-12-31T23:59:59Z''),
            (''slug'', JStr ''btc-updown-15m-1761921000''),
            (''eventSlug'', JStr ''btc-updown-15m-1761921000'')]
        = Inr [(''condition_id'', JStr []), (''question'', JStr ''Up or down?''),
            (''description'', JStr []), (''tokens'', JArr []),
            (''active'', JBool True), (''closed'', JBool False),
            (''end_date'', JStr []),
            (''slug'', JStr ''btc-updown-15m-1761921000''),
            (''eventSlug'', JStr ''btc-updown-15m-1761921000'')]
     \<and> format_market py
          [(''condition_id'', JStr []), (''question'', JStr ''Up or down?''),
            (''description'', JStr []), (''tokens'', JArr []),
            (''active'', JBool True), (''closed'', JBool False),
            (''end_date'', JStr ''2025-12-31T23:59:59Z''),
            (''slug'', JStr ''btc-updown-15m-1761921000''),
            (''eventSlug'', JStr ''btc-updown-15m-1761921000'')]
        \<noteq> Inr [(''condition_id'', JStr []), (''question'', JStr ''Up or down?''),
            (''description'', JStr []), (''tokens'', JArr []),
            (''active'', JBool True), (''closed'', JBool False),
            (''end_date'', JStr ''2025-12-31T23:59:59Z''),
            (''slug'', JStr ''btc-updown-15m-1761921000''),
            (''eventSlug'', JStr ''btc-updown-15m-1761921000'')]"
  by (simp add: format_market_def extract_tokens_def dict_get_def Let_def py_or_def)

theorem renormalising_resets_end_date_witness:
  "\<forall>py. format_market py
          [(''tokens'', JArr [JObj [(''token_id'', JStr ''1''), (''outcome'', JStr ''Up''), (''price'', JInt 1)],
                              JStr ''2'']),
           (''endDate'', JStr ''2025-12-31T23:59:59Z'')]
        = Inr [(''condition_id'', JStr []), (''question'', JStr ''Unknown Market''),
            (''description'', JStr []),
            (''tokens'', JArr [mk_token (JStr ''1'') (JStr ''Up'') 1 (JBool False),
                               mk_token (JStr ''2'') (JStr ''Outcome 2'') 0.5 (JBool False)]),
            (''active'', JBool True), (''closed'', JBool False),
            (''end_date'', JStr ''2025-12-31T23:59:59Z''),
            (''slug'', JStr []), (''eventSlug'', JStr [])]
     \<and> format_market py
          [(''condition_id'', JStr []), (''question'', JStr ''Unknown Market''),
            (''description'', JStr []),
            (''tokens'', JArr [mk_token (JStr ''1'') (JStr ''Up'') 1 (JBool False),
                               mk_token (JStr ''2'') (JStr ''Outcome 2'') 0.5 (JBool False)]),
            (''active'', JBool True), (''closed'', JBool False),
            (''end_date'', JStr ''2025-12-31T23:59:59Z''),
            (''slug'', JStr []), (''eventSlug'', JStr [])]
        = Inr [(''condition_id'', JStr []), (''question'', JStr ''Unknown Market''),
            (''description'', JStr []),
            (''tokens'', JArr [mk_token (JStr ''1'') (JStr ''Up'') 1 (JBool False),
                               mk_token (JStr ''2'') (JStr ''Outcome 2'') 0.5 (JBool False)]),
            (''active'', JBool True), (''closed'', JBool False),
            (''end_date'', JStr []),
            (''slug'', JStr []), (''eventSlug'', JStr [])]"
proof
  fix py
  let ?m = "[(''tokens'', JArr [JObj [(''token_id'', JStr ''1''), (''outcome'', JStr ''Up''), (''price'', JInt 1)],
                              JStr ''2'']),
           (''endDate'', JStr ''2025-12-31T23:59:59Z'')]"
  let ?out = "[(''condition_id'', JStr []), (''question'', JStr ''Unknown Market''),
            (''description'', JStr []),
            (''tokens'', JArr [mk_token (JStr ''1'') (JStr ''Up'') 1 (JBool False),
                               mk_token (JStr ''2'') (JStr ''Outcome 2'') 0.5 (JBool False)]),
            (''active'', JBool True), (''closed'', JBool False),
            (''end_date'', JStr ''2025-12-31T23:59:59Z''),
            (''slug'', JStr []), (''eventSlug'', JStr [])]"
  have 1: "format_market py ?m = Inr ?out"
    by (simp add: format_market_def extract_tokens_def dict_get_def Let_def py_or_def
        str_nat.simps char_of_def bit_iff_odd)
  from renormalising_resets_end_date [OF 1] 1
  show "format_market py ?m = Inr ?out \<and> format_market py ?out = Inr
          [(''condition_id'', JStr []), (''question'', JStr ''Unknown Market''),
            (''description'', JStr []),
            (''tokens'', JArr [mk_token (JStr ''1'') (JStr ''Up'') 1 (JBool False),
                               mk_token (JStr ''2'') (JStr ''Outcome 2'') 0.5 (JBool False)]),
            (''active'', JBool True), (''closed'', JBool False),
            (''end_date'', JStr []),
            (''slug'', JStr []), (''eventSlug'', JStr [])]"
    by (simp add: dict_get_def py_or_def)
qed

section \<open>Results on the probes of a periodic market\<close>

lemma fetch_market_by_slug_eq:
  "fetch_market_by_slug e slug hist = (fst (fetch_market_by_slug e slug hist), hist @ [slug_request slug])"
  using fetch_market_by_slug_hist [of e slug hist] by (simp add: prod_eq_iff slug_request_def)

lemma probe_offsets_outcomes:
  "probe_offsets e base W offs hist =
     (let slugs = map (\<lambda>off. base @ ''-'' @ str_int (W + off)) offs;
          os = probe_outcomes e slugs hist;
          misses = takeWhile (\<lambda>r. \<not> found_active r) os
      in if length misses < length offs
         then (os ! length misses, hist @ map slug_request (take (Suc (length misses)) slugs))
         else (None, hist @ map slug_request slugs))"
proof (induction offs arbitrary: hist)
  case Nil
  show ?case by simp
next
  case (Cons off offs)
  let ?slug = "base @ ''-'' @ str_int (W + off)"
  obtain m where f: "fetch_market_by_slug e ?slug hist = (m, hist @ [slug_request ?slug])"
    using fetch_market_by_slug_eq by blast
  show ?case
  proof (cases "found_active m")
    case True
    then show ?thesis
      using f by (simp add: Let_def)
  next
    case False
    have "probe_offsets e base W (off # offs) hist = probe_offsets e base W offs (hist @ [slug_request ?slug])"
      using False f by (simp add: Let_def)
    then show ?thesis
      using False f by (simp add: Cons.IH Let_def)
  qed
qed


lemma length_probe_outcomes: "length (probe_outcomes e slugs hist) = length slugs"
  by (induction slugs arbitrary: hist) simp_all

lemma search_all_markets_hist:
  "snd (search_all_markets e base_pattern hist) = hist @ [GetMarkets 500]"
  by (simp add: search_all_markets_def Let_def split: response.splits option.splits)

lemma first_hit_is_active:
  assumes "length (takeWhile (\<lambda>r. \<not> found_active r) os) < length os"
  shows "found_active (os ! length (takeWhile (\<lambda>r. \<not> found_active r) os))"
  using nth_length_takeWhile [OF assms] by simp

lemma found_active_Some: "found_active r \<Longrightarrow> \<exists>m. r = Some m"
  by (cases r) simp_all

text \<open>
  Claim C1, amended. With \<open>w\<close> the start of the current window when the call begins,
  \<^verbatim>\<open>_fetch_active_market_by_pattern\<close> probes up to five slugs in this order: base-\<open>w\<close>,
  base-\<open>(w-900)\<close>, base-\<open>(w-1800)\<close>, base-\<open>w\<close> once more, base-\<open>(w+900)\<close>. It stops at the
  first probe whose fetched record is active, returns that record and has sent the probes up
  to that one only. The listing request of the fallback search is sent only after all five
  probes have missed.
\<close>

theorem pattern_probes_in_order:
  "fetch_active_market_by_pattern e slug_pattern hist =
     (let base_pattern = base_pattern_of slug_pattern;
          w = get_current_15min_timestamp (clock e hist);
          candidates = [base_pattern @ ''-'' @ str_int w,
                        base_pattern @ ''-'' @ str_int (w - 900),
                        base_pattern @ ''-'' @ str_int (w - 1800),
                        base_pattern @ ''-'' @ str_int w,
                        base_pattern @ ''-'' @ str_int (w + 900)];
          os = probe_outcomes e candidates hist;
          misses = takeWhile (\<lambda>r. \<not> found_active r) os
      in if length misses < 5
         then (os ! length misses, hist @ map slug_request (take (Suc (length misses)) candidates))
         else search_all_markets e base_pattern (hist @ map slug_request candidates))
   \<and> snd (search_all_markets e (base_pattern_of slug_pattern) hist') = hist' @ [GetMarkets 500]"
proof -
  define base where "base = base_pattern_of slug_pattern"
  define w where "w = get_current_15min_timestamp (clock e hist)"
  let ?s0 = "base @ ''-'' @ str_int w"
  define h1 where "h1 = hist @ [slug_request ?s0]"
  define rest where "rest = map (\<lambda>off. base @ ''-'' @ str_int (w + off)) [- 900, - 1800, 0, 900]"
  define os' where "os' = probe_outcomes e rest h1"
  define k where "k = length (takeWhile (\<lambda>r. \<not> found_active r) os')"
  obtain m0 where f0: "fetch_market_by_slug e ?s0 hist = (m0, h1)"
    unfolding h1_def using fetch_market_by_slug_eq by blast
  have rest: "rest = [base @ ''-'' @ str_int (w - 900), base @ ''-'' @ str_int (w - 1800),
                      base @ ''-'' @ str_int w, base @ ''-'' @ str_int (w + 900)]"
    by (simp add: rest_def)
  have len: "length os' = 4"
    by (simp add: os'_def length_probe_outcomes rest)
  have os: "probe_outcomes e (?s0 # rest) hist = m0 # os'"
    using f0 by (simp add: os'_def h1_def)
  have po: "probe_offsets e base w [- 900, - 1800, 0, 900] h1 =
      (if k < 4 then (os' ! k, h1 @ map slug_request (take (Suc k) rest))
       else (None, h1 @ map slug_request rest))"
  proof -
    have "probe_offsets e base w [- 900, - 1800, 0, 900] h1 =
       (let slugs = rest;
            os = probe_outcomes e slugs h1;
            misses = takeWhile (\<lambda>r. \<not> found_active r) os
        in if length misses < length [- 900, - 1800, 0, 900 :: int]
           then (os ! length misses, h1 @ map slug_request (take (Suc (length misses)) slugs))
           else (None, h1 @ map slug_request slugs))"
      unfolding rest_def by (rule probe_offsets_outcomes)
    then show ?thesis
      unfolding Let_def os'_def [symmetric] k_def [symmetric] by simp
  qed
  have lhs: "fetch_active_market_by_pattern e slug_pattern hist =
      (if found_active m0 then (m0, h1)
       else if k < 4 then (os' ! k, h1 @ map slug_request (take (Suc k) rest))
       else search_all_markets e base (h1 @ map slug_request rest))"
  proof (cases "k < 4")
    case True
    then have "found_active (os' ! k)"
      unfolding k_def using first_hit_is_active [of os'] len by simp
    then obtain m where "os' ! k = Some m"
      using found_active_Some by blast
    then show ?thesis
      using True f0 po
      by (simp add: fetch_active_market_by_pattern_def Let_def base_def [symmetric] w_def [symmetric])
  next
    case False
    then show ?thesis
      using f0 po
      by (simp add: fetch_active_market_by_pattern_def Let_def base_def [symmetric] w_def [symmetric])
  qed
  have rhs: "(let candidates = ?s0 # rest;
          os = probe_outcomes e candidates hist;
          misses = takeWhile (\<lambda>r. \<not> found_active r) os
      in if length misses < 5
         then (os ! length misses, hist @ map slug_request (take (Suc (length misses)) candidates))
         else search_all_markets e base (hist @ map slug_request candidates)) =
      (if found_active m0 then (m0, h1)
       else if k < 4 then (os' ! k, h1 @ map slug_request (take (Suc k) rest))
       else search_all_markets e base (h1 @ map slug_request rest))"
    unfolding Let_def os by (simp add: k_def [symmetric] h1_def)
  have "fetch_active_market_by_pattern e slug_pattern hist =
     (let candidates = ?s0 # rest;
          os = probe_outcomes e candidates hist;
          misses = takeWhile (\<lambda>r. \<not> found_active r) os
      in if length misses < 5
         then (os ! length misses, hist @ map slug_request (take (Suc (length misses)) candidates))
         else search_all_markets e base (hist @ map slug_request candidates))"
    using lhs rhs by simp
  then show ?thesis
    unfolding rest base_def w_def by (simp add: Let_def search_all_markets_hist)
qed


lemma example_window:
  "get_current_15min_timestamp \<lparr>days = 20000, hour = 10, minute = 17, second = 5, microsecond = 3\<rparr>
     = 1728036900"
  by (simp add: get_current_15min_timestamp_def timestamp_us_def int_of_seconds_def Let_def)

lemma example_base_pattern: "base_pattern_of ''eth-updown-15m'' = ''eth-updown-15m''"
  by (simp add: base_pattern_of_def isdigit_def py_isdigit_char_def)

lemma example_slugs:
  "''eth-updown-15m'' @ ''-'' @ str_int 1728036900 = ''eth-updown-15m-1728036900''"
  "''eth-updown-15m'' @ ''-'' @ str_int (1728036900 - 900) = ''eth-updown-15m-1728036000''"
  "''eth-updown-15m'' @ ''-'' @ str_int (1728036900 - 1800) = ''eth-updown-15m-1728035100''"
  "''eth-updown-15m'' @ ''-'' @ str_int (1728036900 + 900) = ''eth-updown-15m-1728037800''"
  by (simp_all add: str_int_def str_nat.simps char_of_def bit_iff_odd)

lemma example_requests:
  "slug_request ''eth-updown-15m-1728036900'' = GetMarketBySlug ''eth-updown-15m-1728036900''"
  "slug_request ''eth-updown-15m-1728036000'' = GetMarketBySlug ''eth-updown-15m-1728036000''"
  "slug_request ''eth-updown-15m-1728035100'' = GetMarketBySlug ''eth-updown-15m-1728035100''"
  "slug_request ''eth-updown-15m-1728037800'' = GetMarketBySlug ''eth-updown-15m-1728037800''"
  by (simp_all add: slug_request_def strip_def py_isspace_def)

text \<open>
  Claim C1 says that exactly four slugs are probed, in the order \<open>w\<close>, \<open>w-900\<close>, \<open>w-1800\<close>,
  \<open>w+900\<close>. The code probes the current window before its loop, and the loop over
  \<^verbatim>\<open>[-900, -1800, 0, 900]\<close> probes it again: when every probe misses, five requests precede
  the listing request.
\<close>

theorem pattern_probes_current_window_twice:
  "snd (fetch_active_market_by_pattern
     \<lparr>server = (\<lambda>h r. Response 404 None),
      clock = (\<lambda>h. \<lparr>days = 20000, hour = 10, minute = 17, second = 5, microsecond = 3\<rparr>)\<rparr>
     ''eth-updown-15m'' [])
   = [GetMarketBySlug ''eth-updown-15m-1728036900'',
      GetMarketBySlug ''eth-updown-15m-1728036000'',
      GetMarketBySlug ''eth-updown-15m-1728035100'',
      GetMarketBySlug ''eth-updown-15m-1728036900'',
      GetMarketBySlug ''eth-updown-15m-1728037800'',
      GetMarkets 500]
   \<and> snd (fetch_active_market_by_pattern
     \<lparr>server = (\<lambda>h r. Response 404 None),
      clock = (\<lambda>h. \<lparr>days = 20000, hour = 10, minute = 17, second = 5, microsecond = 3\<rparr>)\<rparr>
     ''eth-updown-15m'' [])
   \<noteq> [GetMarketBySlug ''eth-updown-15m-1728036900'',
      GetMarketBySlug ''eth-updown-15m-1728036000'',
      GetMarketBySlug ''eth-updown-15m-1728035100'',
      GetMarketBySlug ''eth-updown-15m-1728037800'',
      GetMarkets 500]"
proof -
  let ?e = "\<lparr>server = (\<lambda>h r. Response 404 None),
      clock = (\<lambda>h. \<lparr>days = 20000, hour = 10, minute = 17, second = 5, microsecond = 3\<rparr>)\<rparr>"
  have f: "fetch_market_by_slug ?e slug h = (None, h @ [slug_request slug])" for slug h
    by (simp add: fetch_market_by_slug_def Let_def slug_request_def)
  have "snd (fetch_active_market_by_pattern ?e ''eth-updown-15m'' [])
   = [GetMarketBySlug ''eth-updown-15m-1728036900'',
      GetMarketBySlug ''eth-updown-15m-1728036000'',
      GetMarketBySlug ''eth-updown-15m-1728035100'',
      GetMarketBySlug ''eth-updown-15m-1728036900'',
      GetMarketBySlug ''eth-updown-15m-1728037800'',
      GetMarkets 500]"
    unfolding fetch_active_market_by_pattern_def Let_def example_base_pattern
    using example_slugs
    by (simp add: example_window f example_requests search_all_markets_def Let_def)
  then show ?thesis by simp
qed

theorem pattern_probes_in_order_witness:
  "fetch_active_market_by_pattern
     \<lparr>server = (\<lambda>h r. if r = GetMarketBySlug ''eth-updown-15m-1728036000''
                      then Response 200 (Some (JObj [(''slug'', JStr ''eth-updown-15m-1728036000''),
                                                     (''active'', JBool True), (''closed'', JBool False)]))
                      else Response 404 None),
      clock = (\<lambda>h. \<lparr>days = 20000, hour = 10, minute = 17, second = 5, microsecond = 3\<rparr>)\<rparr>
     ''eth-updown-15m'' []
   = (Some [(''slug'', JStr ''eth-updown-15m-1728036000''), (''active'', JBool True), (''closed'', JBool False)],
      [GetMarketBySlug ''eth-updown-15m-1728036900'', GetMarketBySlug ''eth-updown-15m-1728036000''])"
proof -
  let ?e = "\<lparr>server = (\<lambda>h r. if r = GetMarketBySlug ''eth-updown-15m-1728036000''
                      then Response 200 (Some (JObj [(''slug'', JStr ''eth-updown-15m-1728036000''),
                                                     (''active'', JBool True), (''closed'', JBool False)]))
                      else Response 404 None),
      clock = (\<lambda>h. \<lparr>days = 20000, hour = 10, minute = 17, second = 5, microsecond = 3\<rparr>)\<rparr>"
  have f0: "fst (fetch_market_by_slug ?e ''eth-updown-15m-1728036900'' h) = None" for h
    using example_requests
    by (simp add: fetch_market_by_slug_def Let_def slug_request_def)
  have f1: "fst (fetch_market_by_slug ?e ''eth-updown-15m-1728036000'' h) =
      Some [(''slug'', JStr ''eth-updown-15m-1728036000''), (''active'', JBool True), (''closed'', JBool False)]" for h
    using example_requests
    by (simp add: fetch_market_by_slug_def Let_def slug_request_def dict_get_def)
  have a: "is_active [(''slug'', JStr ''eth-updown-15m-1728036000''), (''active'', JBool True), (''closed'', JBool False)]"
    by (simp add: is_active_def dict_get_def)
  show ?thesis
    using pattern_probes_in_order [of ?e "''eth-updown-15m''" "[]"]
    unfolding Let_def example_base_pattern
    using example_slugs
    by (simp add: example_window f0 f1 a example_requests)
qed

section \<open>Results on the fallback search\<close>

lemma matching_markets_well_formed:
  assumes "list_all slug_is_text ds"
  shows "\<exists>ms. matching_markets base_pattern (map JObj ds) = Inr ms
     \<and> map m_market ms = filter (matches_pattern base_pattern) ds
     \<and> (\<forall>m\<in>set ms. rank_key m = slug_rank (m_market m)
            \<and> (truthy (m_active m) \<and> \<not> truthy (m_closed m)) = is_active (m_market m))"
  using assms
proof (induction ds)
  case Nil
  show ?case by simp
next
  case (Cons d ds)
  then obtain ms where ms: "matching_markets base_pattern (map JObj ds) = Inr ms"
      "map m_market ms = filter (matches_pattern base_pattern) ds"
      "\<forall>m\<in>set ms. rank_key m = slug_rank (m_market m)
            \<and> (truthy (m_active m) \<and> \<not> truthy (m_closed m)) = is_active (m_market m)"
    by auto
  from Cons.prems have wf: "slug_is_text d" by simp
  show ?case
  proof (cases "matches_pattern base_pattern d")
    case True
    then obtain s where s: "dict_get d ''slug'' (JStr []) = JStr s" "s \<noteq> []"
        "sublist (lower base_pattern) (lower s) \<or> prefix (lower base_pattern) (lower s)"
      by (auto simp: matches_pattern_def split: json.splits)
    let ?m = "\<lparr>m_market = d, m_slug = s,
                m_timestamp = extract_timestamp_from_slug s,
                m_active = (if truthy (dict_get d ''active'' (JBool True))
                            then JBool (\<not> truthy (dict_get d ''closed'' (JBool False)))
                            else dict_get d ''active'' (JBool True)),
                m_closed = dict_get d ''closed'' (JBool False)\<rparr>"
    have mm: "matching_markets base_pattern (map JObj (d # ds)) = Inr (?m # ms)"
      using s ms(1) by (simp add: Let_def)
    have r: "rank_key ?m = slug_rank d"
      by (simp add: rank_key_def slug_rank_def s)
    have a: "(truthy (m_active ?m) \<and> \<not> truthy (m_closed ?m)) = is_active d"
      by (auto simp: is_active_def)
    show ?thesis
      using mm ms(2,3) True r a by simp
  next
    case False
    have "matching_markets base_pattern (map JObj (d # ds)) = Inr ms"
    proof (cases "dict_get d ''slug'' (JStr [])")
      case (JStr s)
      with False ms(1) show ?thesis
        by (auto simp: matches_pattern_def Let_def)
    qed (use wf ms(1) in \<open>auto simp: slug_is_text_def dict_get_def Let_def split: option.splits\<close>)
    then show ?thesis
      using ms(2,3) False by simp
  qed
qed


text \<open>
  Claim C7. For a listing of records (JSON objects whose slug, when they have one, is a
  string) and a base pattern, there is a ranking of the records that match the pattern
  which is descending in the trailing timestamp of the slug (0 when there is none) and
  keeps records of equal timestamp in listing order; the fallback search returns the first
  active record of that ranking, and nothing when no matching record is active. A listing
  wrapped as \<^verbatim>\<open>{"data": [...]}\<close> is searched the same way.
\<close>

theorem fallback_search_ranking:
  assumes "list_all slug_is_text ds"
  shows "\<exists>ranked.
       sorted_wrt (\<lambda>a b. slug_rank b \<le> slug_rank a) ranked
     \<and> (\<forall>k. filter (\<lambda>d. slug_rank d = k) ranked
              = filter (\<lambda>d. slug_rank d = k) (filter (matches_pattern base_pattern) ds))
     \<and> pattern_search base_pattern (JArr (map JObj ds))
         = (case filter is_active ranked of [] \<Rightarrow> None | d # _ \<Rightarrow> Some d)
     \<and> pattern_search base_pattern (JObj [(''data'', JArr (map JObj ds))])
         = pattern_search base_pattern (JArr (map JObj ds))"
proof -
  obtain ms where mm: "matching_markets base_pattern (map JObj ds) = Inr ms"
      and mk: "map m_market ms = filter (matches_pattern base_pattern) ds"
      and ok: "\<forall>m\<in>set ms. rank_key m = slug_rank (m_market m)
            \<and> (truthy (m_active m) \<and> \<not> truthy (m_closed m)) = is_active (m_market m)"
    using matching_markets_well_formed [OF assms] by blast
  define sorted_ms where "sorted_ms = sort_most_recent_first ms"
  define ranked where "ranked = map m_market sorted_ms"
  have set_sorted: "set sorted_ms = set ms"
    by (simp add: sorted_ms_def sort_most_recent_first_def)
  have "sorted (map (\<lambda>m. - rank_key m) sorted_ms)"
    by (simp add: sorted_ms_def sort_most_recent_first_def)
  then have "sorted_wrt (\<lambda>a b. rank_key b \<le> rank_key a) sorted_ms"
    by (simp add: sorted_wrt_map)
  then have "sorted_wrt (\<lambda>a b. slug_rank (m_market b) \<le> slug_rank (m_market a)) sorted_ms"
    by (rule sorted_wrt_mono_rel [rotated]) (use ok set_sorted in auto)
  then have 1: "sorted_wrt (\<lambda>a b. slug_rank b \<le> slug_rank a) ranked"
    by (simp add: ranked_def sorted_wrt_map)
  have 2: "filter (\<lambda>d. slug_rank d = k) ranked
              = filter (\<lambda>d. slug_rank d = k) (filter (matches_pattern base_pattern) ds)" for k
  proof -
    have "filter (\<lambda>d. slug_rank d = k) ranked
        = map m_market (filter (\<lambda>m. slug_rank (m_market m) = k) sorted_ms)"
      by (simp add: ranked_def filter_map comp_def)
    also have "filter (\<lambda>m. slug_rank (m_market m) = k) sorted_ms
        = filter (\<lambda>m. - rank_key m = - k) sorted_ms"
      by (rule filter_cong) (use ok set_sorted in auto)
    also have "\<dots> = filter (\<lambda>m. - rank_key m = - k) ms"
      unfolding sorted_ms_def sort_most_recent_first_def by (rule sort_key_stable)
    also have "\<dots> = filter (\<lambda>m. slug_rank (m_market m) = k) ms"
      by (rule filter_cong) (use ok in auto)
    also have "map m_market \<dots> = filter (\<lambda>d. slug_rank d = k) (map m_market ms)"
      by (simp add: filter_map comp_def)
    finally show ?thesis by (simp add: mk)
  qed
  have "map m_market (active_matches ms) = map m_market (filter (\<lambda>m. is_active (m_market m)) sorted_ms)"
    unfolding active_matches_def sorted_ms_def [symmetric]
    by (rule arg_cong [where f = "map m_market"], rule filter_cong) (use ok set_sorted in auto)
  then have am: "map m_market (active_matches ms) = filter is_active ranked"
    by (simp add: ranked_def filter_map comp_def)
  have empty: "ms = [] \<Longrightarrow> active_matches ms = []"
    by (simp add: active_matches_def sort_most_recent_first_def)
  have "pattern_search base_pattern (JArr (map JObj ds))
      = (case active_matches ms of [] \<Rightarrow> None | best_match # _ \<Rightarrow> Some (m_market best_match))"
    using empty by (auto simp: pattern_search_def mm)
  also have "\<dots> = (case map m_market (active_matches ms) of [] \<Rightarrow> None | d # _ \<Rightarrow> Some d)"
    by (cases "active_matches ms") simp_all
  finally have 3: "pattern_search base_pattern (JArr (map JObj ds))
         = (case filter is_active ranked of [] \<Rightarrow> None | d # _ \<Rightarrow> Some d)"
    by (simp add: am)
  have 4: "pattern_search base_pattern (JObj [(''data'', JArr (map JObj ds))])
         = pattern_search base_pattern (JArr (map JObj ds))"
    by (simp add: pattern_search_def dict_get_def)
  from 1 2 3 4 show ?thesis by blast
qed


lemma example_ranks:
  "extract_timestamp_from_slug ''btc-updown-15m-100'' = Some 100"
  "extract_timestamp_from_slug ''btc-updown-15m-300'' = Some 300"
  "extract_timestamp_from_slug ''btc-updown-15m-200'' = Some 200"
  by (simp_all add: extract_timestamp_from_slug_def isdigit_def py_isdigit_char_def
      int_of_str_def ascii_digit_def digits_value_def)

lemma example_matches:
  "sublist (lower ''btc-updown-15m'') (lower ''btc-updown-15m-100'')"
  "sublist (lower ''btc-updown-15m'') (lower ''btc-updown-15m-300'')"
  "sublist (lower ''btc-updown-15m'') (lower ''btc-updown-15m-200'')"
  by (simp_all add: lower_def lower_char_def sublist_code)

theorem fallback_search_ranking_witness:
  "list_all slug_is_text
     [listed_market ''btc-updown-15m-100'' True False,
      listed_market ''btc-updown-15m-300'' True False,
      listed_market ''btc-updown-15m-200'' True False]
   \<and> (case matching_markets ''btc-updown-15m''
          (map JObj [listed_market ''btc-updown-15m-100'' True False,
                     listed_market ''btc-updown-15m-300'' True False,
                     listed_market ''btc-updown-15m-200'' True False]) of
         Inl err \<Rightarrow> []
       | Inr ms \<Rightarrow> map m_slug (active_matches ms))
       = [''btc-updown-15m-300'', ''btc-updown-15m-200'', ''btc-updown-15m-100'']
   \<and> pattern_search ''btc-updown-15m''
        (JArr (map JObj [listed_market ''btc-updown-15m-100'' True False,
                         listed_market ''btc-updown-15m-300'' True False,
                         listed_market ''btc-updown-15m-200'' True False]))
       = Some (listed_market ''btc-updown-15m-300'' True False)
   \<and> pattern_search ''btc-updown-15m''
        (JArr (map JObj [listed_market ''btc-updown-15m-100'' True False,
                         listed_market ''btc-updown-15m-300'' True True,
                         listed_market ''btc-updown-15m-200'' True False]))
       = Some (listed_market ''btc-updown-15m-200'' True False)
   \<and> pattern_search ''btc-updown-15m''
        (JArr (map JObj [listed_market ''btc-updown-15m-100'' False False,
                         listed_market ''btc-updown-15m-300'' True True]))
       = None"
proof -
  let ?ds = "[listed_market ''btc-updown-15m-100'' True False,
              listed_market ''btc-updown-15m-300'' True False,
              listed_market ''btc-updown-15m-200'' True False]"
  have wf: "list_all slug_is_text ?ds"
    by (simp add: slug_is_text_def listed_market_def)
  note ev = listed_market_def dict_get_def Let_def example_ranks example_matches
    pattern_search_def active_matches_def sort_most_recent_first_def rank_key_def
  have 1: "(case matching_markets ''btc-updown-15m'' (map JObj ?ds) of
         Inl err \<Rightarrow> []
       | Inr ms \<Rightarrow> map m_slug (active_matches ms))
       = [''btc-updown-15m-300'', ''btc-updown-15m-200'', ''btc-updown-15m-100'']"
    by (simp add: ev)
  have 2: "pattern_search ''btc-updown-15m'' (JArr (map JObj ?ds))
       = Some (listed_market ''btc-updown-15m-300'' True False)"
    using fallback_search_ranking [OF wf, of "''btc-updown-15m''"] by (simp add: ev)
  have 3: "pattern_search ''btc-updown-15m''
        (JArr (map JObj [listed_market ''btc-updown-15m-100'' True False,
                         listed_market ''btc-updown-15m-300'' True True,
                         listed_market ''btc-updown-15m-200'' True False]))
       = Some (listed_market ''btc-updown-15m-200'' True False)"
    by (simp add: ev)
  have 4: "pattern_search ''btc-updown-15m''
        (JArr (map JObj [listed_market ''btc-updown-15m-100'' False False,
                         listed_market ''btc-updown-15m-300'' True True]))
       = None"
    by (simp add: ev)
  from wf 1 2 3 4 show ?thesis by blast
qed

section \<open>Results on batch resolution\<close>

lemma is_active_formatted:
  assumes "format_market py market = Inr formatted"
  shows "is_active formatted = is_active market"
    and "is_active (formatted @ extra) = is_active market"
proof -
  from assms obtain toks where "extract_tokens py market = Inr toks"
    by (auto simp: format_market_def Let_def split: sum.splits)
  with assms have f: "map_of formatted ''active'' = Some (dict_get market ''active'' (JBool True))"
      "map_of formatted ''closed'' = Some (dict_get market ''closed'' (JBool False))"
    by (auto simp: format_market_def Let_def split: if_splits)
  show "is_active formatted = is_active market"
    by (simp add: is_active_def dict_get_def f)
  show "is_active (formatted @ extra) = is_active market"
    by (simp add: is_active_def dict_get_def f map_add_def)
qed

lemma featured_step_resolve_one:
  "featured_step py e condition_id (featured, hist) =
     (case resolve_one py e condition_id hist of
        (r, hist') \<Rightarrow> (featured @ (case r of None \<Rightarrow> [] | Some formatted \<Rightarrow> [formatted]), hist'))"
proof -
  obtain found hist' where f: "fetch_market_by_slug_or_condition_id e (strip condition_id) hist = (found, hist')"
    by (cases "fetch_market_by_slug_or_condition_id e (strip condition_id) hist")
  show ?thesis
  proof (cases found)
    case None
    with f show ?thesis by (simp add: featured_step_def resolve_one_def)
  next
    case (Some market)
    show ?thesis
    proof (cases "format_market py market")
      case (Inl err)
      with f Some show ?thesis by (simp add: featured_step_def resolve_one_def)
    next
      case (Inr formatted)
      note a = is_active_formatted [OF Inr]
      from f Some Inr show ?thesis
        by (simp add: featured_step_def resolve_one_def Let_def a)
    qed
  qed
qed

lemma featured_loop_resolve_batch:
  "foldl (\<lambda>st condition_id. featured_step py e condition_id st) (featured, hist) ids =
     (featured @ fst (resolve_batch py e ids hist), snd (resolve_batch py e ids hist))"
proof (induction ids arbitrary: featured hist)
  case Nil
  show ?case by simp
next
  case (Cons c cs)
  obtain r h1 where r: "resolve_one py e c hist = (r, h1)"
    by (cases "resolve_one py e c hist")
  obtain rs h2 where rs: "resolve_batch py e cs h1 = (rs, h2)"
    by (cases "resolve_batch py e cs h1")
  show ?case
    by (simp add: featured_step_resolve_one r rs Cons.IH split: option.splits)
qed

lemma resolve_one_active:
  "resolve_one py e c hist = (Some formatted, hist') \<Longrightarrow> is_active formatted"
  by (auto simp: resolve_one_def is_active_formatted split: prod.splits option.splits if_splits sum.splits)

lemma resolve_batch_active: "list_all is_active (fst (resolve_batch py e ids hist))"
proof (induction ids arbitrary: hist)
  case Nil
  show ?case by simp
next
  case (Cons c cs)
  obtain r h1 where r: "resolve_one py e c hist = (r, h1)"
    by (cases "resolve_one py e c hist")
  obtain rs h2 where rs: "resolve_batch py e cs h1 = (rs, h2)"
    by (cases "resolve_batch py e cs h1")
  have "list_all is_active rs"
    using Cons.IH [of h1] rs by simp
  then show ?case
    using r rs resolve_one_active [of py e c hist] by (auto split: option.splits)
qed

lemma resolve_batch_append:
  "resolve_batch py e (xs @ ys) hist =
     (fst (resolve_batch py e xs hist) @ fst (resolve_batch py e ys (snd (resolve_batch py e xs hist))),
      snd (resolve_batch py e ys (snd (resolve_batch py e xs hist))))"
proof (induction xs arbitrary: hist)
  case Nil
  show ?case by simp
next
  case (Cons c cs)
  show ?case
    by (simp add: Cons.IH split: prod.splits option.splits)
qed

text \<open>
  Claim C2, amended. For a non-empty batch of identifiers, \<^verbatim>\<open>get_featured_markets\<close>
  returns a list of markets and nothing else: the normalised markets of the identifiers
  that resolve to an active record, in the input order of their identifiers, with nothing
  in the place of an identifier that does not resolve. Every identifier is resolved in its
  turn whatever happened to the earlier ones, every returned market is active, and the
  result of a batch is the result of its first part followed by the result of the rest.
  This is stated for batches whose markets have a \<^verbatim>\<open>condition_id\<close> and a \<^verbatim>\<open>question\<close>
  that the report after the loop can slice.
\<close>

theorem batch_resolution_in_order:
  assumes "ids \<noteq> []"
    and "list_all reportable (fst (resolve_batch py e ids hist))"
  shows "get_featured_markets py e simplified ids limit hist = resolve_batch py e ids hist
       \<and> list_all is_active (fst (get_featured_markets py e simplified ids limit hist))
       \<and> (\<forall>xs ys. resolve_batch py e (xs @ ys) hist =
             (fst (resolve_batch py e xs hist)
                @ fst (resolve_batch py e ys (snd (resolve_batch py e xs hist))),
              snd (resolve_batch py e ys (snd (resolve_batch py e xs hist)))))"
proof -
  obtain rs h where rb: "resolve_batch py e ids hist = (rs, h)"
    by (cases "resolve_batch py e ids hist")
  have "get_featured_markets py e simplified ids limit hist = (rs, h)"
    using assms rb by (auto simp: get_featured_markets_def featured_loop_resolve_batch)
  then show ?thesis
    using rb resolve_batch_active [of py e ids hist] resolve_batch_append [of py e _ _ hist] by simp
qed

text \<open>
  The case the theorem leaves out: when a market of the batch has a \<^verbatim>\<open>condition_id\<close> or
  a \<^verbatim>\<open>question\<close> that cannot be sliced (a JSON null or number), the report after the loop
  raises inside the outer handler and the whole batch comes back empty.
\<close>

lemma unreportable_market_empties_batch:
  assumes "ids \<noteq> []"
    and "\<not> list_all reportable (fst (resolve_batch py e ids hist))"
  shows "fst (get_featured_markets py e simplified ids limit hist) = []"
  using assms
  by (auto simp: get_featured_markets_def featured_loop_resolve_batch split: prod.splits)

subsection \<open>A batch of three identifiers, the second unresolvable\<close>

lemma example_static:
  "\<not> is_15min_interval_market ''will-a-happen''"
  "\<not> is_15min_interval_market ''will-b-happen''"
  "\<not> is_15min_interval_market ''will-c-happen''"
  by (simp_all add: is_15min_interval_market_def lower_def lower_char_def sublist_code)

lemma example_strip:
  "strip ''will-a-happen'' = ''will-a-happen''"
  "strip ''will-b-happen'' = ''will-b-happen''"
  "strip ''will-c-happen'' = ''will-c-happen''"
  by (simp_all add: strip_def py_isspace_def)

lemma example_format:
  "format_market py (open_market slug question) = Inr (formatted_open_market slug question)"
  by (simp add: format_market_def extract_tokens_def open_market_def formatted_open_market_def
      dict_get_def py_or_def Let_def)

lemma example_open: "is_active (open_market slug question)" "open_market slug question \<noteq> []"
  by (simp_all add: is_active_def open_market_def dict_get_def)

lemma example_resolve_a:
  "resolve_one py two_of_three ''will-a-happen'' h =
     (Some (formatted_open_market ''will-a-happen'' ''Will A happen?''), h @ [GetMarketBySlug ''will-a-happen''])"
  by (simp add: resolve_one_def fetch_market_by_slug_or_condition_id_def example_strip example_static
      fetch_market_by_slug_def two_of_three_def Let_def example_format example_open)
     (simp add: open_market_def dict_get_def)

lemma example_resolve_c:
  "resolve_one py two_of_three ''will-c-happen'' h =
     (Some (formatted_open_market ''will-c-happen'' ''Will C happen?''), h @ [GetMarketBySlug ''will-c-happen''])"
  by (simp add: resolve_one_def fetch_market_by_slug_or_condition_id_def example_strip example_static
      fetch_market_by_slug_def two_of_three_def Let_def example_format example_open)
     (simp add: open_market_def dict_get_def)

lemma example_resolve_b:
  "resolve_one py two_of_three ''will-b-happen'' h =
     (None, h @ [GetMarketBySlug ''will-b-happen'', GetMarketsByConditionIds ''will-b-happen''])"
  by (simp add: resolve_one_def fetch_market_by_slug_or_condition_id_def example_strip example_static
      fetch_market_by_slug_def condition_id_lookup_def two_of_three_def Let_def)

lemma example_reportable: "reportable (formatted_open_market slug question)"
  by (simp add: reportable_def formatted_open_market_def dict_get_def)

text \<open>
  Claim C2 says that identifiers which exhaust every strategy are recorded in a separate
  sequence of misses. The code returns the markets only: a batch of three identifiers whose
  second does not resolve returns exactly what the batch without it returns, with no trace
  of the miss.
\<close>

theorem batch_returns_no_misses:
  "\<forall>py simplified.
     fst (get_featured_markets py two_of_three simplified
            [''will-a-happen'', ''will-b-happen'', ''will-c-happen''] 4 [])
       = [formatted_open_market ''will-a-happen'' ''Will A happen?'',
          formatted_open_market ''will-c-happen'' ''Will C happen?'']
   \<and> fst (get_featured_markets py two_of_three simplified
            [''will-a-happen'', ''will-c-happen''] 4 [])
       = [formatted_open_market ''will-a-happen'' ''Will A happen?'',
          formatted_open_market ''will-c-happen'' ''Will C happen?'']"
proof (intro allI)
  fix py simplified
  have three: "resolve_batch py two_of_three [''will-a-happen'', ''will-b-happen'', ''will-c-happen''] [] =
       ([formatted_open_market ''will-a-happen'' ''Will A happen?'',
         formatted_open_market ''will-c-happen'' ''Will C happen?''],
        [GetMarketBySlug ''will-a-happen'',
         GetMarketBySlug ''will-b-happen'', GetMarketsByConditionIds ''will-b-happen'',
         GetMarketBySlug ''will-c-happen''])"
    by (simp add: example_resolve_a example_resolve_b example_resolve_c)
  have two: "resolve_batch py two_of_three [''will-a-happen'', ''will-c-happen''] [] =
       ([formatted_open_market ''will-a-happen'' ''Will A happen?'',
         formatted_open_market ''will-c-happen'' ''Will C happen?''],
        [GetMarketBySlug ''will-a-happen'', GetMarketBySlug ''will-c-happen''])"
    by (simp add: example_resolve_a example_resolve_c)
  show "fst (get_featured_markets py two_of_three simplified
            [''will-a-happen'', ''will-b-happen'', ''will-c-happen''] 4 [])
       = [formatted_open_market ''will-a-happen'' ''Will A happen?'',
          formatted_open_market ''will-c-happen'' ''Will C happen?'']
   \<and> fst (get_featured_markets py two_of_three simplified
            [''will-a-happen'', ''will-c-happen''] 4 [])
       = [formatted_open_market ''will-a-happen'' ''Will A happen?'',
          formatted_open_market ''will-c-happen'' ''Will C happen?'']"
    unfolding get_featured_markets_def featured_loop_resolve_batch three two
    by (simp add: example_reportable)
qed

theorem batch_resolution_in_order_witness:
  "\<forall>py simplified.
     get_featured_markets py two_of_three simplified
            [''will-a-happen'', ''will-b-happen'', ''will-c-happen''] 4 []
       = ([formatted_open_market ''will-a-happen'' ''Will A happen?'',
           formatted_open_market ''will-c-happen'' ''Will C happen?''],
          [GetMarketBySlug ''will-a-happen'',
           GetMarketBySlug ''will-b-happen'', GetMarketsByConditionIds ''will-b-happen'',
           GetMarketBySlug ''will-c-happen''])"
proof (intro allI)
  fix py simplified
  let ?ids = "[''will-a-happen'', ''will-b-happen'', ''will-c-happen'']"
  have rb: "resolve_batch py two_of_three ?ids [] =
       ([formatted_open_market ''will-a-happen'' ''Will A happen?'',
           formatted_open_market ''will-c-happen'' ''Will C happen?''],
          [GetMarketBySlug ''will-a-happen'',
           GetMarketBySlug ''will-b-happen'', GetMarketsByConditionIds ''will-b-happen'',
           GetMarketBySlug ''will-c-happen''])"
    by (simp add: example_resolve_a example_resolve_b example_resolve_c)
  have ne: "?ids \<noteq> []" by simp
  have rp: "list_all reportable (fst (resolve_batch py two_of_three ?ids []))"
    unfolding rb by (simp add: example_reportable)
  show "get_featured_markets py two_of_three simplified ?ids 4 [] =
       ([formatted_open_market ''will-a-happen'' ''Will A happen?'',
           formatted_open_market ''will-c-happen'' ''Will C happen?''],
          [GetMarketBySlug ''will-a-happen'',
           GetMarketBySlug ''will-b-happen'', GetMarketsByConditionIds ''will-b-happen'',
           GetMarketBySlug ''will-c-happen''])"
    using batch_resolution_in_order [OF ne rp, of simplified 4] rb by simp
qed

section \<open>Results on the classification of identifiers and the stripping of timestamps\<close>

lemma lower_marker: "lower ''-15m-'' = ''-15m-''"
  by (simp add: lower_def lower_char_def)

lemma marker_is_15min: "is_15min_interval_market (p @ ''-15m-'' @ t)"
proof -
  have "lower (p @ ''-15m-'' @ t) = lower p @ ''-15m-'' @ lower t"
    using lower_marker by (simp add: lower_def)
  then have "sublist ''-15m-'' (lower (p @ ''-15m-'' @ t))"
    unfolding sublist_def by metis
  then show ?thesis
    by (simp add: is_15min_interval_market_def)
qed

lemma isdigit_no_dash: "isdigit ds \<Longrightarrow> CHR ''-'' \<notin> set ds"
  by (auto simp: isdigit_def list_all_iff py_isdigit_char_def Let_def)

lemma base_pattern_strips_digits:
  assumes "isdigit ds"
  shows "base_pattern_of (b @ ''-'' @ ds) = b"
proof -
  have sp: "split_on CHR ''-'' (b @ CHR ''-'' # ds) = split_on CHR ''-'' b @ [ds]"
    using isdigit_no_dash [OF assms] by (simp add: split_on_append_sep split_on_no_sep)
  show ?thesis
    using assms by (simp add: base_pattern_of_def sp join_split_on)
qed

lemma probe_offsets_grows:
  "\<exists>new. snd (probe_offsets e base w offs hist) = hist @ new"
proof (induction offs arbitrary: hist)
  case Nil
  show ?case by simp
next
  case (Cons off offs)
  let ?slug = "base @ ''-'' @ str_int (w + off)"
  obtain m where f: "fetch_market_by_slug e ?slug hist = (m, hist @ [slug_request ?slug])"
    using fetch_market_by_slug_eq by blast
  obtain new where "snd (probe_offsets e base w offs (hist @ [slug_request ?slug])) = (hist @ [slug_request ?slug]) @ new"
    using Cons.IH by blast
  then show ?case
    using f by (auto simp: Let_def)
qed

lemma fetch_active_first_request:
  "\<exists>new. snd (fetch_active_market_by_pattern e slug_pattern hist) =
      hist @ slug_request (base_pattern_of slug_pattern @ ''-'' @
               str_int (get_current_15min_timestamp (clock e hist))) # new"
proof -
  let ?base = "base_pattern_of slug_pattern"
  let ?w = "get_current_15min_timestamp (clock e hist)"
  let ?s = "?base @ ''-'' @ str_int ?w"
  let ?h1 = "hist @ [slug_request ?s]"
  obtain m where f: "fetch_market_by_slug e ?s hist = (m, ?h1)"
    using fetch_market_by_slug_eq by blast
  obtain r h2 where p: "probe_offsets e ?base ?w [- 900, - 1800, 0, 900] ?h1 = (r, h2)"
    by (cases "probe_offsets e ?base ?w [- 900, - 1800, 0, 900] ?h1")
  obtain new where h2: "h2 = ?h1 @ new"
    using probe_offsets_grows [of e ?base ?w "[- 900, - 1800, 0, 900]" ?h1] p by auto
  show ?thesis
  proof (cases "found_active m")
    case True
    with f show ?thesis by (simp add: fetch_active_market_by_pattern_def Let_def)
  next
    case False
    show ?thesis
    proof (cases r)
      case None
      with False f p h2 search_all_markets_hist [of e ?base h2] show ?thesis
        by (simp add: fetch_active_market_by_pattern_def Let_def)
    next
      case (Some market)
      with False f p h2 show ?thesis
        by (simp add: fetch_active_market_by_pattern_def Let_def)
    qed
  qed
qed

lemma periodic_first_request:
  assumes "is_15min_interval_market (strip ident)"
  shows "\<exists>new. snd (fetch_market_by_slug_or_condition_id e ident hist) =
      hist @ slug_request (base_pattern_of (strip ident) @ ''-'' @
               str_int (get_current_15min_timestamp (clock e hist))) # new"
proof -
  let ?c = "strip ident"
  obtain pm h1 where p: "fetch_active_market_by_pattern e ?c hist = (pm, h1)"
    by (cases "fetch_active_market_by_pattern e ?c hist")
  obtain new where h1: "h1 = hist @ slug_request (base_pattern_of ?c @ ''-'' @
               str_int (get_current_15min_timestamp (clock e hist))) # new"
    using fetch_active_first_request [of e ?c hist] p by auto
  obtain m h2 where f: "fetch_market_by_slug e ?c h1 = (m, h2)"
    by (cases "fetch_market_by_slug e ?c h1")
  have h2: "h2 = h1 @ [GetMarketBySlug ?c]"
    using fetch_market_by_slug_hist [of e ?c h1] f by (simp add: strip_strip)
  have c1: "snd (condition_id_lookup e ?c h1) = h1 @ [GetMarketsByConditionIds ?c]"
    by (rule condition_id_lookup_hist)
  have c2: "snd (condition_id_lookup e ?c h2) = h2 @ [GetMarketsByConditionIds ?c]"
    by (rule condition_id_lookup_hist)
  show ?thesis
    using assms p f h2 c1 c2 unfolding h1
    by (auto simp: fetch_market_by_slug_or_condition_id_def Let_def)
qed


lemma is_15min_iff:
  "is_15min_interval_market ident \<longleftrightarrow>
     (\<exists>p t. lower ident = p @ ''-15m-'' @ t)
     \<or> prefix ''btc-updown-15m'' (lower ident) \<or> prefix ''eth-updown-15m'' (lower ident)"
  by (simp add: is_15min_interval_market_def sublist_def Let_def)

text \<open>
  Claim C9, amended. The identifier \<^verbatim>\<open>btc-updown-15m-1761921000\<close> is a 15-minute
  (periodic) market with base pattern \<^verbatim>\<open>btc-updown-15m\<close> and embedded timestamp
  1761921000, and \<^verbatim>\<open>0xabc123...\<close> is not one. An identifier is periodic exactly when its
  lower-cased form contains \<^verbatim>\<open>-15m-\<close> or starts with \<^verbatim>\<open>btc-updown-15m\<close> or
  \<^verbatim>\<open>eth-updown-15m\<close>: so no identifier without a hyphen is periodic, and every identifier
  that contains \<^verbatim>\<open>-15m-\<close> is, whatever it begins with. For a periodic identifier the
  cascade first asks for the base pattern, which is the identifier without its trailing
  segment of digits, followed by the current window start. For an identifier that is not
  periodic the cascade only ever asks for the identifier itself: nothing is removed.
\<close>

theorem classification_and_stripping:
  "is_15min_interval_market ''btc-updown-15m-1761921000''
   \<and> base_pattern_of ''btc-updown-15m-1761921000'' = ''btc-updown-15m''
   \<and> extract_timestamp_from_slug ''btc-updown-15m-1761921000'' = Some 1761921000
   \<and> \<not> is_15min_interval_market ''0xabc123...''
   \<and> (\<forall>ident. is_15min_interval_market ident \<longleftrightarrow>
          (\<exists>p t. lower ident = p @ ''-15m-'' @ t)
          \<or> prefix ''btc-updown-15m'' (lower ident) \<or> prefix ''eth-updown-15m'' (lower ident))
   \<and> (\<forall>ident. CHR ''-'' \<notin> set ident \<longrightarrow> \<not> is_15min_interval_market ident)
   \<and> (\<forall>p t. is_15min_interval_market (p @ ''-15m-'' @ t))
   \<and> (\<forall>b ds. isdigit ds \<longrightarrow> base_pattern_of (b @ ''-'' @ ds) = b)
   \<and> (\<forall>e ident hist. is_15min_interval_market (strip ident) \<longrightarrow>
         (\<exists>new. snd (fetch_market_by_slug_or_condition_id e ident hist) =
            hist @ slug_request (base_pattern_of (strip ident) @ ''-'' @
                     str_int (get_current_15min_timestamp (clock e hist))) # new))
   \<and> (\<forall>e ident hist. \<not> is_15min_interval_market (strip ident) \<longrightarrow>
         (\<exists>new. snd (fetch_market_by_slug_or_condition_id e ident hist) = hist @ new
            \<and> set new \<subseteq> {GetMarketBySlug (strip ident), GetMarketsByConditionIds (strip ident)}))"
proof -
  have sp: "split_on CHR ''-'' ''btc-updown-15m-1761921000'' = [''btc'', ''updown'', ''15m'', ''1761921000'']"
    by simp
  have dg: "isdigit ''1761921000''"
    by (simp add: isdigit_def py_isdigit_char_def)
  have 1: "is_15min_interval_market ''btc-updown-15m-1761921000''"
    by (simp add: is_15min_interval_market_def lower_def lower_char_def)
  have 2: "base_pattern_of ''btc-updown-15m-1761921000'' = ''btc-updown-15m''"
    unfolding base_pattern_of_def sp using dg by simp
  have 3: "extract_timestamp_from_slug ''btc-updown-15m-1761921000'' = Some 1761921000"
    unfolding extract_timestamp_from_slug_def sp Let_def using dg
    by (simp add: int_of_str_def ascii_digit_def digits_value_def)
  have 4: "\<not> is_15min_interval_market ''0xabc123...''"
    by (rule no_dash_not_15min) simp
  have 5: "\<forall>ident. is_15min_interval_market ident \<longleftrightarrow>
          (\<exists>p t. lower ident = p @ ''-15m-'' @ t)
          \<or> prefix ''btc-updown-15m'' (lower ident) \<or> prefix ''eth-updown-15m'' (lower ident)"
    by (intro allI) (rule is_15min_iff)
  have 6: "\<forall>ident. CHR ''-'' \<notin> set ident \<longrightarrow> \<not> is_15min_interval_market ident"
    using no_dash_not_15min by blast
  have 7: "\<forall>p t. is_15min_interval_market (p @ ''-15m-'' @ t)"
    by (intro allI) (rule marker_is_15min)
  have 8: "\<forall>b ds. isdigit ds \<longrightarrow> base_pattern_of (b @ ''-'' @ ds) = b"
    by (intro allI impI) (rule base_pattern_strips_digits)
  have 9: "\<forall>e ident hist. is_15min_interval_market (strip ident) \<longrightarrow>
         (\<exists>new. snd (fetch_market_by_slug_or_condition_id e ident hist) =
            hist @ slug_request (base_pattern_of (strip ident) @ ''-'' @
                     str_int (get_current_15min_timestamp (clock e hist))) # new)"
    by (intro allI impI) (rule periodic_first_request)
  have 10: "\<forall>e ident hist. \<not> is_15min_interval_market (strip ident) \<longrightarrow>
         (\<exists>new. snd (fetch_market_by_slug_or_condition_id e ident hist) = hist @ new
            \<and> set new \<subseteq> {GetMarketBySlug (strip ident), GetMarketsByConditionIds (strip ident)})"
    by (intro allI impI) (rule static_requests)
  show ?thesis
    by (rule conjI [OF 1 conjI [OF 2 conjI [OF 3 conjI [OF 4 conjI [OF 5 conjI [OF 6
          conjI [OF 7 conjI [OF 8 conjI [OF 9 10]]]]]]]]])
qed

text \<open>
  Claim C9 says that an identifier beginning with a hex-address prefix is static, and that
  a trailing numeric segment is stripped only from identifiers of the periodic family. The
  code tests for \<^verbatim>\<open>-15m-\<close> anywhere in the identifier before it looks at the prefix:
  \<^verbatim>\<open>0xabc-15m-123\<close> and \<^verbatim>\<open>will-x-beat-15m-2025\<close> are periodic, their trailing digits
  are stripped, and the service is asked for \<^verbatim>\<open>will-x-beat-15m\<close> with window starts
  before it is asked for the identifier itself.
\<close>

theorem periodic_without_family_marker:
  "is_15min_interval_market ''0xabc-15m-123''
   \<and> base_pattern_of ''0xabc-15m-123'' = ''0xabc-15m''
   \<and> is_15min_interval_market ''will-x-beat-15m-2025''
   \<and> base_pattern_of ''will-x-beat-15m-2025'' = ''will-x-beat-15m''
   \<and> snd (fetch_market_by_slug_or_condition_id
        \<lparr>server = (\<lambda>h r. Response 404 None),
         clock = (\<lambda>h. \<lparr>days = 20000, hour = 10, minute = 17, second = 5, microsecond = 3\<rparr>)\<rparr>
        ''will-x-beat-15m-2025'' [])
      = [GetMarketBySlug ''will-x-beat-15m-1728036900'',
         GetMarketBySlug ''will-x-beat-15m-1728036000'',
         GetMarketBySlug ''will-x-beat-15m-1728035100'',
         GetMarketBySlug ''will-x-beat-15m-1728036900'',
         GetMarketBySlug ''will-x-beat-15m-1728037800'',
         GetMarkets 500,
         GetMarketBySlug ''will-x-beat-15m-2025'',
         GetMarketsByConditionIds ''will-x-beat-15m-2025'']"
proof -
  let ?e = "\<lparr>server = (\<lambda>h r. Response 404 None),
         clock = (\<lambda>h. \<lparr>days = 20000, hour = 10, minute = 17, second = 5, microsecond = 3\<rparr>)\<rparr>"
  have d1: "isdigit ''123''" and d2: "isdigit ''2025''"
    by (simp_all add: isdigit_def py_isdigit_char_def)
  have 1: "is_15min_interval_market ''0xabc-15m-123''"
    using marker_is_15min [of "''0xabc''" "''123''"] by simp
  have 2: "base_pattern_of ''0xabc-15m-123'' = ''0xabc-15m''"
    using base_pattern_strips_digits [OF d1, of "''0xabc-15m''"] by simp
  have 3: "is_15min_interval_market ''will-x-beat-15m-2025''"
    using marker_is_15min [of "''will-x-beat''" "''2025''"] by simp
  have 4: "base_pattern_of ''will-x-beat-15m-2025'' = ''will-x-beat-15m''"
    using base_pattern_strips_digits [OF d2, of "''will-x-beat-15m''"] by simp
  have st: "strip ''will-x-beat-15m-2025'' = ''will-x-beat-15m-2025''"
    by (simp add: strip_def py_isspace_def)
  have f: "fetch_market_by_slug ?e slug h = (None, h @ [slug_request slug])" for slug h
    by (simp add: fetch_market_by_slug_def Let_def slug_request_def)
  have sl: "''will-x-beat-15m'' @ ''-'' @ str_int 1728036900 = ''will-x-beat-15m-1728036900''"
    "''will-x-beat-15m'' @ ''-'' @ str_int (1728036900 - 900) = ''will-x-beat-15m-1728036000''"
    "''will-x-beat-15m'' @ ''-'' @ str_int (1728036900 - 1800) = ''will-x-beat-15m-1728035100''"
    "''will-x-beat-15m'' @ ''-'' @ str_int (1728036900 + 900) = ''will-x-beat-15m-1728037800''"
    by (simp_all add: str_int_def str_nat.simps char_of_def bit_iff_odd)
  have rq: "slug_request ''will-x-beat-15m-1728036900'' = GetMarketBySlug ''will-x-beat-15m-1728036900''"
    "slug_request ''will-x-beat-15m-1728036000'' = GetMarketBySlug ''will-x-beat-15m-1728036000''"
    "slug_request ''will-x-beat-15m-1728035100'' = GetMarketBySlug ''will-x-beat-15m-1728035100''"
    "slug_request ''will-x-beat-15m-1728037800'' = GetMarketBySlug ''will-x-beat-15m-1728037800''"
    "slug_request ''will-x-beat-15m-2025'' = GetMarketBySlug ''will-x-beat-15m-2025''"
    by (simp_all add: slug_request_def strip_def py_isspace_def)
  have pat: "fetch_active_market_by_pattern ?e ''will-x-beat-15m-2025'' [] =
      (None, [GetMarketBySlug ''will-x-beat-15m-1728036900'',
         GetMarketBySlug ''will-x-beat-15m-1728036000'',
         GetMarketBySlug ''will-x-beat-15m-1728035100'',
         GetMarketBySlug ''will-x-beat-15m-1728036900'',
         GetMarketBySlug ''will-x-beat-15m-1728037800'',
         GetMarkets 500])"
    unfolding fetch_active_market_by_pattern_def Let_def 4
    using sl
    by (simp add: example_window f rq search_all_markets_def Let_def)
  have 5: "snd (fetch_market_by_slug_or_condition_id ?e ''will-x-beat-15m-2025'' [])
      = [GetMarketBySlug ''will-x-beat-15m-1728036900'',
         GetMarketBySlug ''will-x-beat-15m-1728036000'',
         GetMarketBySlug ''will-x-beat-15m-1728035100'',
         GetMarketBySlug ''will-x-beat-15m-1728036900'',
         GetMarketBySlug ''will-x-beat-15m-1728037800'',
         GetMarkets 500,
         GetMarketBySlug ''will-x-beat-15m-2025'',
         GetMarketsByConditionIds ''will-x-beat-15m-2025'']"
    unfolding fetch_market_by_slug_or_condition_id_def Let_def st
    using 3 by (simp add: pat f rq condition_id_lookup_def Let_def)
  from 1 2 3 4 5 show ?thesis by blast
qed

theorem classification_and_stripping_witness:
  "is_15min_interval_market (strip ''0xabc-15m-123'')
   \<and> isdigit ''123''
   \<and> take 1 (snd (fetch_market_by_slug_or_condition_id
        \<lparr>server = (\<lambda>h r. Response 404 None),
         clock = (\<lambda>h. \<lparr>days = 20000, hour = 10, minute = 17, second = 5, microsecond = 3\<rparr>)\<rparr>
        ''0xabc-15m-123'' []))
      = [GetMarketBySlug ''0xabc-15m-1728036900'']
   \<and> \<not> is_15min_interval_market (strip ''will-it-rain-2025'')
   \<and> snd (fetch_market_by_slug_or_condition_id
        \<lparr>server = (\<lambda>h r. Response 404 None),
         clock = (\<lambda>h. \<lparr>days = 20000, hour = 10, minute = 17, second = 5, microsecond = 3\<rparr>)\<rparr>
        ''will-it-rain-2025'' [])
      = [GetMarketBySlug ''will-it-rain-2025'', GetMarketsByConditionIds ''will-it-rain-2025'']"
proof -
  let ?e = "\<lparr>server = (\<lambda>h r. Response 404 None),
         clock = (\<lambda>h. \<lparr>days = 20000, hour = 10, minute = 17, second = 5, microsecond = 3\<rparr>)\<rparr>"
  have per: "\<forall>p t. is_15min_interval_market (p @ ''-15m-'' @ t)"
    and strp: "\<forall>b ds. isdigit ds \<longrightarrow> base_pattern_of (b @ ''-'' @ ds) = b"
    and first: "\<forall>e ident hist. is_15min_interval_market (strip ident) \<longrightarrow>
         (\<exists>new. snd (fetch_market_by_slug_or_condition_id e ident hist) =
            hist @ slug_request (base_pattern_of (strip ident) @ ''-'' @
                     str_int (get_current_15min_timestamp (clock e hist))) # new)"
    using classification_and_stripping by blast+
  have s1: "strip ''0xabc-15m-123'' = ''0xabc-15m-123''"
    by (simp add: strip_def py_isspace_def)
  have d: "isdigit ''123''"
    by (simp add: isdigit_def py_isdigit_char_def)
  have p: "is_15min_interval_market (strip ''0xabc-15m-123'')"
    unfolding s1 using per [rule_format, of "''0xabc''" "''123''"] by simp
  have b: "base_pattern_of ''0xabc-15m-123'' = ''0xabc-15m''"
    using strp [rule_format, OF d, of "''0xabc-15m''"] by simp
  have sl: "''0xabc-15m'' @ ''-'' @ str_int 1728036900 = ''0xabc-15m-1728036900''"
    by (simp add: str_int_def str_nat.simps char_of_def bit_iff_odd)
  have rq: "slug_request ''0xabc-15m-1728036900'' = GetMarketBySlug ''0xabc-15m-1728036900''"
    by (simp add: slug_request_def strip_def py_isspace_def)
  obtain new where "snd (fetch_market_by_slug_or_condition_id ?e ''0xabc-15m-123'' []) =
      [] @ slug_request (base_pattern_of (strip ''0xabc-15m-123'') @ ''-'' @
                     str_int (get_current_15min_timestamp (clock ?e []))) # new"
    using first [rule_format, OF p, of ?e "[]"] by blast
  then have t: "take 1 (snd (fetch_market_by_slug_or_condition_id ?e ''0xabc-15m-123'' []))
      = [GetMarketBySlug ''0xabc-15m-1728036900'']"
    using sl by (simp add: s1 b example_window rq)
  have s: "strip ''will-it-rain-2025'' = ''will-it-rain-2025''"
    by (simp add: strip_def py_isspace_def)
  have n: "\<not> is_15min_interval_market (strip ''will-it-rain-2025'')"
    unfolding s by (simp add: is_15min_interval_market_def lower_def lower_char_def sublist_code)
  have f: "fetch_market_by_slug ?e ''will-it-rain-2025'' [] = (None, [GetMarketBySlug ''will-it-rain-2025''])"
    by (simp add: fetch_market_by_slug_def Let_def s)
  have c: "condition_id_lookup ?e ''will-it-rain-2025'' [GetMarketBySlug ''will-it-rain-2025'']
        = (None, [GetMarketBySlug ''will-it-rain-2025'', GetMarketsByConditionIds ''will-it-rain-2025''])"
    by (simp add: condition_id_lookup_def Let_def)
  have w: "snd (fetch_market_by_slug_or_condition_id ?e ''will-it-rain-2025'' [])
      = [GetMarketBySlug ''will-it-rain-2025'', GetMarketsByConditionIds ''will-it-rain-2025'']"
    using n unfolding fetch_market_by_slug_or_condition_id_def Let_def s by (simp add: f c)
  from p d t n w show ?thesis by blast
qed

end
